theory Spec2Isabelle
  imports Main
begin

section \<open>JavaScript helpers\<close>

text \<open>
  Strings are lists of 8-bit characters, read as the code units below 256 of a
  JavaScript string. \<open>String.prototype.trim\<close> strips white space and line
  terminators from both ends; below 256 these are TAB, LF, VT, FF, CR, SPACE and NBSP.
\<close>

definition is_white :: "char \<Rightarrow> bool" where
  "is_white c \<longleftrightarrow>
     c \<in> set [CHR 0x09, CHR 0x0A, CHR 0x0B, CHR 0x0C, CHR 0x0D, CHR 0x20, CHR 0xA0]"

definition trim :: "string \<Rightarrow> string" where
  "trim s = rev (dropWhile is_white (rev (dropWhile is_white s)))"

text \<open>Decimal rendering of a number inside a template literal (integers only).\<close>

fun show_nat :: "nat \<Rightarrow> string" where
  "show_nat n =
     (if n < 10 then [''0123456789'' ! n]
      else show_nat (n div 10) @ [''0123456789'' ! (n mod 10)])"

declare show_nat.simps [simp del]

definition show_int :: "int \<Rightarrow> string" where
  "show_int i = (if i < 0 then CHR ''-'' # show_nat (nat (- i)) else show_nat (nat i))"

section \<open>Entities returned by the backend\<close>

record customer =
  customer_id :: int
  first_name :: string
  last_name :: string
  email :: string
  birth_date :: string
  address :: string

record book =
  book_id :: int
  title :: string
  author_name :: string
  unique_id :: string
  copies_count :: int
  available_copies :: int
  total_borrowed :: int

text \<open>
  \<open>customerDetails?.id\<close> and \<open>bookData?.id\<close> used as conditions: a missing object
  and the number 0 are both falsy.
\<close>

definition customer_id_of :: "customer option \<Rightarrow> int option" where
  "customer_id_of c =
     (case c of None \<Rightarrow> None
      | Some d \<Rightarrow> if customer_id d = 0 then None else Some (customer_id d))"

definition book_id_of :: "book option \<Rightarrow> int option" where
  "book_id_of b =
     (case b of None \<Rightarrow> None
      | Some d \<Rightarrow> if book_id d = 0 then None else Some (book_id d))"

section \<open>ApiService.request\<close>

text \<open>
  A parsed JSON value. An object keeps its members in the order of the text; of two members
  with one name \<open>JSON.parse\<close> keeps the later. Numbers are integers here.
\<close>

datatype json =
    JNull
  | JBool bool
  | JNum int
  | JStr string
  | JArr "json list"
  | JObj "(string \<times> json) list"

datatype js_error = Error string | TypeError | SyntaxError

text \<open>
  \<open>errorData.detail\<close>: reading a property of \<open>null\<close> throws a TypeError, an object
  yields its member or \<open>undefined\<close> (None), and no boolean, number, string or array has a
  property of that name.
\<close>

definition get_detail :: "json \<Rightarrow> js_error + json option" where
  "get_detail v =
     (case v of
        JNull \<Rightarrow> Inl TypeError
      | JObj members \<Rightarrow> Inr (map_of (rev members) ''detail'')
      | _ \<Rightarrow> Inr None)"

fun truthy :: "json \<Rightarrow> bool" where
  "truthy JNull = False"
| "truthy (JBool b) = b"
| "truthy (JNum n) = (n \<noteq> 0)"
| "truthy (JStr s) = (s \<noteq> [])"
| "truthy (JArr _) = True"
| "truthy (JObj _) = True"

text \<open>
  \<open>new Error(v)\<close> stores the string conversion of \<open>v\<close> as the message, and a conversion
  that throws makes the constructor throw. A string converts to itself, \<open>null\<close> and the
  booleans to their names. An array is joined with commas, \<open>null\<close> elements counting as
  empty, and the first element whose conversion throws makes the whole throw. An object
  parsed from JSON has no callable member: with a member named \<open>toString\<close> of its own,
  which hides \<open>Object.prototype.toString\<close>, the conversion finds nothing that gives a
  primitive and throws a TypeError, and without one the text is "[object Object]".
  The text of a number is the engine's (digits up to 1e21, exponent form from there on,
  which takes the floating-point value to state); it is the parameter \<open>num\<close>.
\<close>

fun join_comma :: "(js_error + string) list \<Rightarrow> js_error + string" where
  "join_comma [] = Inr []"
| "join_comma [x] = x"
| "join_comma (x # y # ys) =
     (case x of
        Inl e \<Rightarrow> Inl e
      | Inr a \<Rightarrow>
          (case join_comma (y # ys) of
             Inl e \<Rightarrow> Inl e
           | Inr b \<Rightarrow> Inr (a @ '','' @ b)))"

fun to_string :: "(int \<Rightarrow> string) \<Rightarrow> json \<Rightarrow> js_error + string" where
  "to_string num JNull = Inr ''null''"
| "to_string num (JBool b) = Inr (if b then ''true'' else ''false'')"
| "to_string num (JNum n) = Inr (num n)"
| "to_string num (JStr s) = Inr s"
| "to_string num (JArr xs) =
     join_comma (map (\<lambda>x. if x = JNull then Inr [] else to_string num x) xs)"
| "to_string num (JObj members) =
     (if ''toString'' \<in> fst ` set members then Inl TypeError else Inr ''[object Object]'')"

text \<open>
  What \<open>fetch\<close> gives back: a rejection, or a response with its status and the outcome of
  \<open>response.json()\<close> (None when the body is not JSON and the promise rejects).
\<close>

record response =
  status :: nat
  body :: "json option"

datatype fetch_result = Rejected js_error | Responded response

definition ok :: "response \<Rightarrow> bool" where
  "ok r \<longleftrightarrow> 200 \<le> status r \<and> status r \<le> 299"

definition http_error_message :: "response \<Rightarrow> string" where
  "http_error_message r = ''HTTP error! status: '' @ show_nat (status r)"

definition request :: "(int \<Rightarrow> string) \<Rightarrow> fetch_result \<Rightarrow> js_error + json" where
  "request num f =
     (case f of
        Rejected e \<Rightarrow> Inl e
      | Responded r \<Rightarrow>
          if \<not> ok r then
            (let errorData = (case body r of None \<Rightarrow> JObj [] | Some j \<Rightarrow> j) in
             case get_detail errorData of
               Inl e \<Rightarrow> Inl e
             | Inr None \<Rightarrow> Inl (Error (http_error_message r))
             | Inr (Some d) \<Rightarrow>
                 if truthy d
                 then (case to_string num d of
                         Inl e \<Rightarrow> Inl e
                       | Inr message \<Rightarrow> Inl (Error message))
                 else Inl (Error (http_error_message r)))
          else
            (case body r of None \<Rightarrow> Inl SyntaxError | Some j \<Rightarrow> Inr j))"

section \<open>BorrowBook.jsx\<close>

text \<open>
  The six \<open>useState\<close> cells of the component, followed by what leaves it: the calls
  made on \<open>apiService\<close>, the requests still awaiting their response (each an
  \<open>await\<close> with the variables its continuation captured), and the number of
  \<open>onBorrowSuccess\<close> invocations. SearchProperties, the only user of the component,
  supplies \<open>onBorrowSuccess\<close>, so \<open>onBorrowSuccess?.()\<close> is an invocation.
\<close>

datatype bb_call = GetBook string | BorrowBookCall int int

datatype bb_await = AwaitGetBook string | AwaitBorrow

record borrow_book =
  bookId :: string
  bookData :: "book option"
  availableCopy :: "int option"
  isSearching :: bool
  isBorrowing :: bool
  errorMessage :: string
  bb_calls :: "bb_call list"
  bb_awaiting :: "bb_await list"
  borrowSuccessCalls :: nat

definition bb_init :: borrow_book where
  "bb_init = \<lparr> bookId = [], bookData = None, availableCopy = None, isSearching = False,
     isBorrowing = False, errorMessage = [], bb_calls = [], bb_awaiting = [],
     borrowSuccessCalls = 0 \<rparr>"

definition no_copies_message :: "book \<Rightarrow> string" where
  "no_copies_message b =
     ''Book \"'' @ title b @ ''\" has no available copies ('' @
     show_int (available_copies b) @ ''/'' @ show_int (copies_count b) @ '')''"

definition not_found_message :: "string \<Rightarrow> string" where
  "not_found_message i = ''Book with ID \"'' @ i @ ''\" not found''"

text \<open>\<open>searchBookCopy\<close> up to its \<open>await\<close>.\<close>

definition searchBookCopy :: "borrow_book \<Rightarrow> borrow_book" where
  "searchBookCopy s =
     (if trim (bookId s) = [] then s\<lparr> errorMessage := ''Please enter book ID'' \<rparr>
      else s\<lparr> isSearching := True, errorMessage := [], bookData := None,
              availableCopy := None,
              bb_calls := bb_calls s @ [GetBook (trim (bookId s))],
              bb_awaiting := bb_awaiting s @ [AwaitGetBook (bookId s)] \<rparr>)"

text \<open>The rest of \<open>searchBookCopy\<close>: the \<open>try\<close> body after the response, the \<open>catch\<close>
  (which reads the \<open>bookId\<close> the call captured) and the \<open>finally\<close>.\<close>

definition searchBookCopy_resolved :: "book \<Rightarrow> borrow_book \<Rightarrow> borrow_book" where
  "searchBookCopy_resolved b s =
     (let s1 = s\<lparr> bookData := Some b \<rparr>;
          s2 = (if available_copies b > 0 then s1\<lparr> availableCopy := Some (book_id b) \<rparr>
                else s1\<lparr> errorMessage := no_copies_message b \<rparr>)
      in s2\<lparr> isSearching := False \<rparr>)"

definition searchBookCopy_rejected :: "string \<Rightarrow> borrow_book \<Rightarrow> borrow_book" where
  "searchBookCopy_rejected captured s =
     s\<lparr> errorMessage := not_found_message captured, isSearching := False \<rparr>"

text \<open>\<open>handleBorrowConfirm\<close> up to its \<open>await\<close>, and its two continuations.\<close>

definition handleBorrowConfirm :: "customer option \<Rightarrow> borrow_book \<Rightarrow> borrow_book" where
  "handleBorrowConfirm customerDetails s =
     (case (customer_id_of customerDetails, book_id_of (bookData s)) of
        (Some c, Some b) \<Rightarrow>
          s\<lparr> isBorrowing := True,
             bb_calls := bb_calls s @ [BorrowBookCall c b],
             bb_awaiting := bb_awaiting s @ [AwaitBorrow] \<rparr>
      | _ \<Rightarrow> s)"

definition handleBorrowConfirm_resolved :: "borrow_book \<Rightarrow> borrow_book" where
  "handleBorrowConfirm_resolved s =
     s\<lparr> bookId := [], bookData := None, availableCopy := None, errorMessage := [],
        borrowSuccessCalls := borrowSuccessCalls s + 1, isBorrowing := False \<rparr>"

definition handleBorrowConfirm_rejected :: "string \<Rightarrow> borrow_book \<Rightarrow> borrow_book" where
  "handleBorrowConfirm_rejected message s =
     s\<lparr> errorMessage := (if message = [] then ''Failed to borrow book'' else message),
        isBorrowing := False \<rparr>"

definition handleCancel :: "borrow_book \<Rightarrow> borrow_book" where
  "handleCancel s = s\<lparr> bookData := None, availableCopy := None, errorMessage := [] \<rparr>"

text \<open>
  What the render makes possible. The text field and the Find button are disabled while
  \<open>isSearching || isBorrowing\<close>; the confirmation block, which holds the Borrow and
  Cancel buttons, is rendered only when \<open>bookData && availableCopy\<close>, and both buttons
  are disabled while \<open>isBorrowing\<close>.
\<close>

definition input_enabled :: "borrow_book \<Rightarrow> bool" where
  "input_enabled s \<longleftrightarrow> \<not> (isSearching s \<or> isBorrowing s)"

definition confirmation_rendered :: "borrow_book \<Rightarrow> bool" where
  "confirmation_rendered s \<longleftrightarrow> bookData s \<noteq> None \<and> availableCopy s \<noteq> None"

datatype bb_event =
    ChangeBookId string
  | ClickFind
  | PressEnter
  | ClickBorrow
  | ClickCancel
  | GetBookResolved string book
  | GetBookRejected string
  | BorrowResolved
  | BorrowRejected string

fun bb_step :: "customer option \<Rightarrow> borrow_book \<Rightarrow> bb_event \<Rightarrow> borrow_book" where
  "bb_step p s (ChangeBookId v) = (if input_enabled s then s\<lparr> bookId := v \<rparr> else s)"
| "bb_step p s ClickFind = (if input_enabled s then searchBookCopy s else s)"
| "bb_step p s PressEnter = (if input_enabled s then searchBookCopy s else s)"
| "bb_step p s ClickBorrow =
     (if confirmation_rendered s \<and> \<not> isBorrowing s then handleBorrowConfirm p s else s)"
| "bb_step p s ClickCancel =
     (if confirmation_rendered s \<and> \<not> isBorrowing s then handleCancel s else s)"
| "bb_step p s (GetBookResolved captured b) =
     (if AwaitGetBook captured \<in> set (bb_awaiting s)
      then searchBookCopy_resolved b
             (s\<lparr> bb_awaiting := remove1 (AwaitGetBook captured) (bb_awaiting s) \<rparr>)
      else s)"
| "bb_step p s (GetBookRejected captured) =
     (if AwaitGetBook captured \<in> set (bb_awaiting s)
      then searchBookCopy_rejected captured
             (s\<lparr> bb_awaiting := remove1 (AwaitGetBook captured) (bb_awaiting s) \<rparr>)
      else s)"
| "bb_step p s BorrowResolved =
     (if AwaitBorrow \<in> set (bb_awaiting s)
      then handleBorrowConfirm_resolved
             (s\<lparr> bb_awaiting := remove1 AwaitBorrow (bb_awaiting s) \<rparr>)
      else s)"
| "bb_step p s (BorrowRejected m) =
     (if AwaitBorrow \<in> set (bb_awaiting s)
      then handleBorrowConfirm_rejected m
             (s\<lparr> bb_awaiting := remove1 AwaitBorrow (bb_awaiting s) \<rparr>)
      else s)"

definition borrow_calls :: "borrow_book \<Rightarrow> bb_call list" where
  "borrow_calls s = filter (\<lambda>c. case c of BorrowBookCall _ _ \<Rightarrow> True | _ \<Rightarrow> False) (bb_calls s)"

text \<open>The component from its mount on, under a fixed \<open>customerDetails\<close>.\<close>

definition bb_run :: "customer option \<Rightarrow> bb_event list \<Rightarrow> borrow_book" where
  "bb_run p evs = foldl (bb_step p) bb_init evs"

section \<open>SearchProperties (the return flow)\<close>


datatype sub_tab = Borrowed | History | Borrow



















section \<open>The search components\<close>

record suggestion =
  sg_id :: int
  sg_text :: string
  phone :: "string option"
  passport :: "string option"
  sg_author_name :: "string option"

text \<open>The four \<open>useState\<close> cells that SearchBar and BookSearchbar both declare.\<close>

record search_ui =
  showPopup :: bool
  searchValue :: string
  suggestions :: "suggestion list"
  isLoading :: bool

text \<open>\<open>response.suggestions || []\<close>: None stands for a response without that list.\<close>

definition suggestions_of :: "suggestion list option \<Rightarrow> suggestion list" where
  "suggestions_of r = (case r of None \<Rightarrow> [] | Some l \<Rightarrow> l)"

text \<open>A suggestion can be clicked when the popup lists it.\<close>

definition suggestion_rendered :: "'a search_ui_scheme \<Rightarrow> suggestion \<Rightarrow> bool" where
  "suggestion_rendered s sg \<longleftrightarrow> showPopup s \<and> \<not> isLoading s \<and> sg \<in> set (suggestions s)"

subsection \<open>SearchBar (customers)\<close>

text \<open>
  Besides the four cells: the queries passed to \<open>apiService.searchCustomers\<close>, those
  whose response is still awaited, the number of pending \<open>handleBlur\<close> timeouts, and the
  suggestions handed to \<open>onSelectSuggestion\<close>, the only callback the component has.
\<close>

record customer_search = search_ui +
  cs_calls :: "string list"
  cs_awaiting :: "string list"
  cs_blurTimeouts :: nat
  cs_selected :: "suggestion list"

definition cs_init :: customer_search where
  "cs_init = \<lparr> showPopup = False, searchValue = [], suggestions = [], isLoading = False,
     cs_calls = [], cs_awaiting = [], cs_blurTimeouts = 0, cs_selected = [] \<rparr>"

definition cs_handleInputChange :: "string \<Rightarrow> customer_search \<Rightarrow> customer_search" where
  "cs_handleInputChange v s =
     (let s1 = s\<lparr> searchValue := v \<rparr> in
      if trim v \<noteq> []
      then s1\<lparr> isLoading := True, cs_calls := cs_calls s @ [v],
               cs_awaiting := cs_awaiting s @ [v] \<rparr>
      else s1\<lparr> suggestions := [], showPopup := False \<rparr>)"

definition cs_search_resolved :: "suggestion list option \<Rightarrow> customer_search \<Rightarrow> customer_search" where
  "cs_search_resolved r s =
     s\<lparr> suggestions := suggestions_of r, showPopup := True, isLoading := False \<rparr>"

definition cs_search_rejected :: "customer_search \<Rightarrow> customer_search" where
  "cs_search_rejected s = s\<lparr> suggestions := [], isLoading := False \<rparr>"

definition cs_handleFocus :: "customer_search \<Rightarrow> customer_search" where
  "cs_handleFocus s = (if trim (searchValue s) \<noteq> [] then s\<lparr> showPopup := True \<rparr> else s)"

definition cs_handleSelectSuggestion :: "suggestion \<Rightarrow> customer_search \<Rightarrow> customer_search" where
  "cs_handleSelectSuggestion sg s =
     s\<lparr> searchValue := sg_text sg, showPopup := False, cs_selected := cs_selected s @ [sg] \<rparr>"

datatype cs_event =
    CsInputChange string
  | CsSearchResolved string "suggestion list option"
  | CsSearchRejected string
  | CsFocus
  | CsBlur
  | CsBlurTimeout
  | CsSelectSuggestion suggestion

fun cs_step :: "customer_search \<Rightarrow> cs_event \<Rightarrow> customer_search" where
  "cs_step s (CsInputChange v) = cs_handleInputChange v s"
| "cs_step s (CsSearchResolved q r) =
     (if q \<in> set (cs_awaiting s)
      then cs_search_resolved r (s\<lparr> cs_awaiting := remove1 q (cs_awaiting s) \<rparr>) else s)"
| "cs_step s (CsSearchRejected q) =
     (if q \<in> set (cs_awaiting s)
      then cs_search_rejected (s\<lparr> cs_awaiting := remove1 q (cs_awaiting s) \<rparr>) else s)"
| "cs_step s CsFocus = cs_handleFocus s"
| "cs_step s CsBlur = s\<lparr> cs_blurTimeouts := cs_blurTimeouts s + 1 \<rparr>"
| "cs_step s CsBlurTimeout =
     (if cs_blurTimeouts s > 0
      then s\<lparr> showPopup := False, cs_blurTimeouts := cs_blurTimeouts s - 1 \<rparr> else s)"
| "cs_step s (CsSelectSuggestion sg) =
     (if suggestion_rendered s sg then cs_handleSelectSuggestion sg s else s)"

definition cs_run :: "cs_event list \<Rightarrow> customer_search" where
  "cs_run evs = foldl cs_step cs_init evs"

subsection \<open>BookSearchbar\<close>

text \<open>
  Besides the four cells: the selected book, the three refs, and the surroundings. The
  pending debounce timer is held with the time it is due and the two constants its
  callback closes over (\<open>currentRequestId\<close> and \<open>searchTerm\<close>); clearing a timer that
  has fired does nothing, so the ref is None once it has fired. The clock counts
  milliseconds. The calls on \<open>apiService.searchBooks\<close> are logged with their time; each
  awaited lookup keeps the two constants its continuation closes over. Mainwindow
  supplies \<open>onBookSelect\<close>, so \<open>onBookSelect?.(x)\<close> is an invocation with \<open>x\<close>.
\<close>

record book_search = search_ui +
  selectedBook :: "book option"
  currentSearchRef :: string
  searchTimeoutRef :: "(nat \<times> nat \<times> string) option"
  requestIdRef :: nat
  clock :: nat
  blurTimeouts :: "nat list"
  searchBooks_calls :: "(nat \<times> string) list"
  awaiting_search :: "(nat \<times> string) list"
  getBook_calls :: "int list"
  awaiting_book :: "int list"
  onBookSelect_calls :: "book option list"

text \<open>
  The debounce effect. It runs after a render in which \<open>searchValue\<close> or \<open>onBookSelect\<close>
  has changed; the cleanup of the previous run and the first statement of this one both
  clear the pending timer.
\<close>

definition debounce_effect :: "book_search \<Rightarrow> book_search" where
  "debounce_effect s =
     (let searchTerm = trim (searchValue s);
          s1 = s\<lparr> searchTimeoutRef := None \<rparr>
      in if searchTerm = []
         then s1\<lparr> suggestions := [], showPopup := False, selectedBook := None,
                  currentSearchRef := [],
                  onBookSelect_calls := onBookSelect_calls s @ [None] \<rparr>
         else s1\<lparr> requestIdRef := requestIdRef s + 1,
                  searchTimeoutRef := Some (clock s + 300, requestIdRef s + 1, searchTerm) \<rparr>)"

text \<open>The state after mounting: the effect has run once on the empty \<open>searchValue\<close>.\<close>

definition bs_init :: book_search where
  "bs_init = debounce_effect
     \<lparr> showPopup = False, searchValue = [], suggestions = [], isLoading = False,
       selectedBook = None, currentSearchRef = [], searchTimeoutRef = None,
       requestIdRef = 0, clock = 0, blurTimeouts = [], searchBooks_calls = [],
       awaiting_search = [], getBook_calls = [], awaiting_book = [],
       onBookSelect_calls = [] \<rparr>"

text \<open>The render that follows a handler: the effect runs if \<open>searchValue\<close> has changed.\<close>

definition rerender :: "string \<Rightarrow> book_search \<Rightarrow> book_search" where
  "rerender previous s = (if searchValue s \<noteq> previous then debounce_effect s else s)"

definition handleInputChange :: "string \<Rightarrow> book_search \<Rightarrow> book_search" where
  "handleInputChange v s =
     (let s1 = s\<lparr> searchValue := v \<rparr>;
          s2 = (case selectedBook s of
                  None \<Rightarrow> s1
                | Some b \<Rightarrow>
                    if v \<noteq> title b
                    then s1\<lparr> selectedBook := None,
                             onBookSelect_calls := onBookSelect_calls s @ [None] \<rparr>
                    else s1)
      in rerender (searchValue s) s2)"

text \<open>The timer callback up to its \<open>await\<close>; it runs no earlier than the timer is due.\<close>

definition timer_fired :: "book_search \<Rightarrow> book_search" where
  "timer_fired s =
     (case searchTimeoutRef s of
        None \<Rightarrow> s
      | Some (due, currentRequestId, searchTerm) \<Rightarrow>
          if clock s < due then s
          else s\<lparr> searchTimeoutRef := None, currentSearchRef := searchTerm,
                  isLoading := True,
                  searchBooks_calls := searchBooks_calls s @ [(clock s, searchTerm)],
                  awaiting_search := awaiting_search s @ [(currentRequestId, searchTerm)] \<rparr>)"

definition isStillCurrent :: "nat \<Rightarrow> string \<Rightarrow> book_search \<Rightarrow> bool" where
  "isStillCurrent currentRequestId searchTerm s \<longleftrightarrow>
     currentSearchRef s = searchTerm \<and> currentRequestId = requestIdRef s"

text \<open>The rest of the callback: \<open>try\<close> after the response, \<open>catch\<close>, and \<open>finally\<close>.\<close>

definition search_resolved ::
  "nat \<Rightarrow> string \<Rightarrow> suggestion list option \<Rightarrow> book_search \<Rightarrow> book_search" where
  "search_resolved currentRequestId searchTerm r s =
     (if isStillCurrent currentRequestId searchTerm s
      then s\<lparr> suggestions := suggestions_of r, showPopup := True, isLoading := False \<rparr>
      else s)"

definition search_rejected :: "nat \<Rightarrow> string \<Rightarrow> book_search \<Rightarrow> book_search" where
  "search_rejected currentRequestId searchTerm s =
     (if isStillCurrent currentRequestId searchTerm s
      then s\<lparr> suggestions := [], isLoading := False \<rparr>
      else s)"

definition handleFocus :: "book_search \<Rightarrow> book_search" where
  "handleFocus s =
     (if trim (searchValue s) \<noteq> [] \<and> suggestions s \<noteq> [] then s\<lparr> showPopup := True \<rparr> else s)"

definition handleBlur :: "book_search \<Rightarrow> book_search" where
  "handleBlur s = s\<lparr> blurTimeouts := blurTimeouts s @ [clock s + 200] \<rparr>"

definition handleSelectSuggestion :: "suggestion \<Rightarrow> book_search \<Rightarrow> book_search" where
  "handleSelectSuggestion sg s =
     rerender (searchValue s)
       (s\<lparr> searchTimeoutRef := None, searchValue := sg_text sg, showPopup := False,
           isLoading := True, getBook_calls := getBook_calls s @ [sg_id sg],
           awaiting_book := awaiting_book s @ [sg_id sg] \<rparr>)"

definition getBook_resolved :: "book \<Rightarrow> book_search \<Rightarrow> book_search" where
  "getBook_resolved fullBook s =
     s\<lparr> selectedBook := Some fullBook,
        onBookSelect_calls := onBookSelect_calls s @ [Some fullBook],
        isLoading := False \<rparr>"

definition getBook_rejected :: "book_search \<Rightarrow> book_search" where
  "getBook_rejected s =
     s\<lparr> selectedBook := None, onBookSelect_calls := onBookSelect_calls s @ [None],
        isLoading := False \<rparr>"

definition clearSelection :: "book_search \<Rightarrow> book_search" where
  "clearSelection s =
     rerender (searchValue s)
       (s\<lparr> searchTimeoutRef := None, searchValue := [], selectedBook := None,
           suggestions := [], showPopup := False, currentSearchRef := [],
           onBookSelect_calls := onBookSelect_calls s @ [None] \<rparr>)"

text \<open>
  The events of the component. \<open>Elapse\<close> lets time pass; \<open>TimerFire\<close> and \<open>BlurTimeout\<close>
  run a timer callback that is due; \<open>PropsChange\<close> is a render of the parent that hands
  down a new \<open>onBookSelect\<close>; the clear button is rendered when
  \<open>selectedBook || searchValue\<close>. \<open>handleAction\<close> only calls \<open>onAction\<close> and is left out.
\<close>

datatype bs_event =
    InputChange string
  | Elapse nat
  | TimerFire
  | SearchResolved nat string "suggestion list option"
  | SearchRejected nat string
  | Focus
  | Blur
  | BlurTimeout nat
  | SelectSuggestion suggestion
  | GetBookSettled int "book option"
  | ClearSelection
  | PropsChange

fun bs_step :: "book_search \<Rightarrow> bs_event \<Rightarrow> book_search" where
  "bs_step s (InputChange v) = handleInputChange v s"
| "bs_step s (Elapse d) = s\<lparr> clock := clock s + d \<rparr>"
| "bs_step s TimerFire = timer_fired s"
| "bs_step s (SearchResolved i q r) =
     (if (i, q) \<in> set (awaiting_search s)
      then search_resolved i q r (s\<lparr> awaiting_search := remove1 (i, q) (awaiting_search s) \<rparr>)
      else s)"
| "bs_step s (SearchRejected i q) =
     (if (i, q) \<in> set (awaiting_search s)
      then search_rejected i q (s\<lparr> awaiting_search := remove1 (i, q) (awaiting_search s) \<rparr>)
      else s)"
| "bs_step s Focus = handleFocus s"
| "bs_step s Blur = handleBlur s"
| "bs_step s (BlurTimeout due) =
     (if due \<in> set (blurTimeouts s) \<and> due \<le> clock s
      then s\<lparr> showPopup := False, blurTimeouts := remove1 due (blurTimeouts s) \<rparr> else s)"
| "bs_step s (SelectSuggestion sg) =
     (if suggestion_rendered s sg then handleSelectSuggestion sg s else s)"
| "bs_step s (GetBookSettled i r) =
     (if i \<in> set (awaiting_book s)
      then (case r of
              Some fullBook \<Rightarrow> getBook_resolved fullBook
            | None \<Rightarrow> getBook_rejected)
             (s\<lparr> awaiting_book := remove1 i (awaiting_book s) \<rparr>)
      else s)"
| "bs_step s ClearSelection =
     (if selectedBook s \<noteq> None \<or> searchValue s \<noteq> [] then clearSelection s else s)"
| "bs_step s PropsChange = debounce_effect s"

definition bs_run :: "bs_event list \<Rightarrow> book_search" where
  "bs_run evs = foldl bs_step bs_init evs"

text \<open>The time at which \<open>searchValue\<close> last changed along a sequence of events.\<close>

fun last_change :: "book_search \<Rightarrow> nat \<Rightarrow> bs_event list \<Rightarrow> nat" where
  "last_change s t [] = t"
| "last_change s t (e # es) =
     last_change (bs_step s e)
       (if searchValue (bs_step s e) \<noteq> searchValue s then clock s else t) es"

definition last_input_change :: "bs_event list \<Rightarrow> nat" where
  "last_input_change evs = last_change bs_init 0 evs"

section \<open>Sample data\<close>

definition ann :: customer where
  "ann = \<lparr> customer_id = 3, first_name = ''Ann'', last_name = ''Lee'', email = [],
     birth_date = [], address = [] \<rparr>"

definition dune :: book where
  "dune = \<lparr> book_id = 42, title = ''Dune'', author_name = ''Herbert'', unique_id = ''D1'',
     copies_count = 2, available_copies = 1, total_borrowed = 0 \<rparr>"

definition emma :: book where
  "emma = \<lparr> book_id = 7, title = ''Emma'', author_name = ''Austen'', unique_id = ''E1'',
     copies_count = 3, available_copies = 0, total_borrowed = 3 \<rparr>"



definition alice :: suggestion where
  "alice = \<lparr> sg_id = 5, sg_text = ''Alice in Wonderland'', phone = None, passport = None,
     sg_author_name = Some ''Carroll'' \<rparr>"

definition dune_entry :: suggestion where
  "dune_entry = \<lparr> sg_id = 42, sg_text = ''Dune'', phone = None, passport = None,
     sg_author_name = Some ''Herbert'' \<rparr>"

definition allen :: suggestion where
  "allen = \<lparr> sg_id = 3, sg_text = ''Allen Lee'', phone = Some ''555'', passport = None,
     sg_author_name = None \<rparr>"

section \<open>Invariants\<close>

text \<open>
  BorrowBook has at most one request under way: none, one \<open>getBook\<close> (then the book
  data and the available-copy marker are cleared), or one \<open>borrowBook\<close>.
\<close>

definition bb_inv :: "borrow_book \<Rightarrow> bool" where
  "bb_inv s \<longleftrightarrow>
     (bb_awaiting s = [] \<and> \<not> isSearching s \<and> \<not> isBorrowing s) \<or>
     (bb_awaiting s = [AwaitGetBook (bookId s)] \<and> isSearching s \<and> \<not> isBorrowing s \<and>
        bookData s = None \<and> availableCopy s = None) \<or>
     (bb_awaiting s = [AwaitBorrow] \<and> isBorrowing s \<and> \<not> isSearching s)"

text \<open>
  BookSearchbar. A pending timer carries the latest request id and the trimmed current
  input. Every awaited lookup carries a non-empty query and an id no later than the
  latest; the one with the latest id, if any, asked for the trimmed current input unless
  the input has been blanked since. While the input is blank, no timer is pending and
  \<open>currentSearchRef\<close> is empty.
\<close>

definition timer_ok :: "book_search \<Rightarrow> bool" where
  "timer_ok s \<longleftrightarrow>
     (\<forall>due i q. searchTimeoutRef s = Some (due, i, q) \<longrightarrow>
        i = requestIdRef s \<and> q = trim (searchValue s) \<and> q \<noteq> [])"

definition awaiting_ok :: "book_search \<Rightarrow> bool" where
  "awaiting_ok s \<longleftrightarrow>
     (\<forall>j q. (j, q) \<in> set (awaiting_search s) \<longrightarrow>
        j \<le> requestIdRef s \<and> q \<noteq> [] \<and>
        (j = requestIdRef s \<and> trim (searchValue s) \<noteq> [] \<longrightarrow> q = trim (searchValue s)))"

definition awaiting_bounded :: "book_search \<Rightarrow> bool" where
  "awaiting_bounded s \<longleftrightarrow>
     (\<forall>j q. (j, q) \<in> set (awaiting_search s) \<longrightarrow> j \<le> requestIdRef s \<and> q \<noteq> [])"

definition blank_ok :: "book_search \<Rightarrow> bool" where
  "blank_ok s \<longleftrightarrow>
     (trim (searchValue s) = [] \<longrightarrow> searchTimeoutRef s = None \<and> currentSearchRef s = [])"

definition bs_inv :: "book_search \<Rightarrow> bool" where
  "bs_inv s \<longleftrightarrow> timer_ok s \<and> awaiting_ok s \<and> blank_ok s"

text \<open>
  The timing of the debounce, relative to the time \<open>t\<close> of the last change of
  \<open>searchValue\<close>: a pending timer is due no earlier than 300ms after it.
\<close>

definition bs_timing :: "book_search \<Rightarrow> nat \<Rightarrow> bool" where
  "bs_timing s t \<longleftrightarrow>
     t \<le> clock s \<and>
     (\<forall>due i q. searchTimeoutRef s = Some (due, i, q) \<longrightarrow> t + 300 \<le> due)"

text \<open>
  A stretch of events in which the debounce effect does not run: no event changes
  \<open>searchValue\<close>, and none is a render of the parent that hands down a new
  \<open>onBookSelect\<close>.
\<close>

fun calm :: "book_search \<Rightarrow> bs_event list \<Rightarrow> bool" where
  "calm s [] = True"
| "calm s (e # es) =
     (e \<noteq> PropsChange \<and> searchValue (bs_step s e) = searchValue s \<and> calm (bs_step s e) es)"

section \<open>The borrow flow\<close>

lemma trim_blank [simp]: "trim ''  '' = []" "trim [] = []"
  by (simp_all add: trim_def is_white_def)

lemma show_int_0 [simp]: "show_int 0 = ''0''"
  by (simp add: show_int_def show_nat.simps)

lemma bb_inv_init: "bb_inv bb_init"
  by (simp add: bb_inv_def bb_init_def)

lemma bb_inv_step: "bb_inv s \<Longrightarrow> bb_inv (bb_step p s e)"
  by (cases e)
    (auto simp: bb_inv_def input_enabled_def confirmation_rendered_def searchBookCopy_def
      searchBookCopy_resolved_def searchBookCopy_rejected_def handleBorrowConfirm_def
      handleBorrowConfirm_resolved_def handleBorrowConfirm_rejected_def handleCancel_def
      Let_def split: option.splits prod.splits)

lemma bb_inv_run: "bb_inv (bb_run p evs)"
  unfolding bb_run_def
  by (induction evs rule: rev_induct) (simp_all add: bb_inv_init bb_inv_step)

lemma borrow_calls_step:
  "availableCopy s = None \<Longrightarrow> borrow_calls (bb_step p s e) = borrow_calls s"
  by (cases e)
    (auto simp: borrow_calls_def input_enabled_def confirmation_rendered_def
      searchBookCopy_def searchBookCopy_resolved_def searchBookCopy_rejected_def
      handleBorrowConfirm_resolved_def handleBorrowConfirm_rejected_def Let_def)

text \<open>
  C10. Submitting a blank or whitespace-only book identifier (the Find button or Enter,
  both of which call \<open>searchBookCopy\<close>) sets the error message to "Please enter book ID"
  and changes nothing else: no call is made on the API, nothing is awaited, and
  \<open>bookId\<close>, \<open>bookData\<close>, \<open>availableCopy\<close> and the two loading flags keep their values.
\<close>

theorem C10_blank_book_id:
  "trim (bookId s) = [] \<Longrightarrow>
     searchBookCopy s = s\<lparr> errorMessage := ''Please enter book ID'' \<rparr> \<and>
     bb_calls (searchBookCopy s) = bb_calls s \<and>
     bb_awaiting (searchBookCopy s) = bb_awaiting s \<and>
     bookId (searchBookCopy s) = bookId s \<and>
     bookData (searchBookCopy s) = bookData s \<and>
     availableCopy (searchBookCopy s) = availableCopy s \<and>
     isSearching (searchBookCopy s) = isSearching s \<and>
     isBorrowing (searchBookCopy s) = isBorrowing s \<and>
     (input_enabled s \<longrightarrow>
        bb_step p s ClickFind = searchBookCopy s \<and> bb_step p s PressEnter = searchBookCopy s)"
  by (simp add: searchBookCopy_def)

theorem C10_blank_book_id_witness:
  "trim (bookId (bb_init\<lparr> bookId := ''  '' \<rparr>)) = [] \<and>
   input_enabled (bb_init\<lparr> bookId := ''  '' \<rparr>) \<and>
   bb_step None (bb_init\<lparr> bookId := ''  '' \<rparr>) ClickFind =
     bb_init\<lparr> bookId := ''  '', errorMessage := ''Please enter book ID'' \<rparr> \<and>
   bb_calls (bb_step None (bb_init\<lparr> bookId := ''  '' \<rparr>) ClickFind) = []"
  using C10_blank_book_id [of "bb_init\<lparr> bookId := ''  '' \<rparr>" None]
  by (simp add: bb_init_def input_enabled_def)

text \<open>
  C7 as stated fails: Cancel does not clear the entered book identifier. After
  entering "42", finding a book with a free copy and clicking Cancel, the text field
  still holds "42".
\<close>

theorem C7_cancel_keeps_bookId:
  "confirmation_rendered (bb_run None [ChangeBookId ''42'', ClickFind, GetBookResolved ''42'' dune]) \<and>
   bookId (bb_run None [ChangeBookId ''42'', ClickFind, GetBookResolved ''42'' dune, ClickCancel])
     = ''42''"
  by (simp add: bb_run_def bb_init_def input_enabled_def confirmation_rendered_def dune_def
      searchBookCopy_def searchBookCopy_resolved_def handleCancel_def trim_def is_white_def)

text \<open>
  C7, amended. Cancel clears the fetched book data, the available-copy marker and the
  error message, and nothing else: the entered book identifier and the two loading flags
  keep their values, no call is made on the API and nothing is awaited.
\<close>

theorem C7_cancel:
  "handleCancel s = s\<lparr> bookData := None, availableCopy := None, errorMessage := [] \<rparr> \<and>
   bookData (handleCancel s) = None \<and>
   availableCopy (handleCancel s) = None \<and>
   errorMessage (handleCancel s) = [] \<and>
   bookId (handleCancel s) = bookId s \<and>
   isSearching (handleCancel s) = isSearching s \<and>
   isBorrowing (handleCancel s) = isBorrowing s \<and>
   bb_calls (bb_step p s ClickCancel) = bb_calls s \<and>
   bb_awaiting (bb_step p s ClickCancel) = bb_awaiting s \<and>
   (confirmation_rendered s \<and> \<not> isBorrowing s \<longrightarrow> bb_step p s ClickCancel = handleCancel s)"
  by (simp add: handleCancel_def)

theorem C7_cancel_witness:
  "confirmation_rendered
     (bb_init\<lparr> bookId := ''42'', bookData := Some dune, availableCopy := Some 42 \<rparr>) \<and>
   \<not> isBorrowing (bb_init\<lparr> bookId := ''42'', bookData := Some dune, availableCopy := Some 42 \<rparr>) \<and>
   bb_step None (bb_init\<lparr> bookId := ''42'', bookData := Some dune, availableCopy := Some 42 \<rparr>)
     ClickCancel = bb_init\<lparr> bookId := ''42'' \<rparr>"
  using C7_cancel [of "bb_init\<lparr> bookId := ''42'', bookData := Some dune, availableCopy := Some 42 \<rparr>" None]
  by (simp add: bb_init_def confirmation_rendered_def)

text \<open>
  C4. When the borrow request of a confirmation succeeds, \<open>bookId\<close>, \<open>bookData\<close>,
  \<open>availableCopy\<close> and \<open>errorMessage\<close> are back at their initial values '', null, null
  and '', and \<open>onBorrowSuccess\<close> has been invoked exactly once more. A confirmation
  makes exactly one borrow request, for the customer's id and the book's id, and each
  success uses up one awaited request; no other event invokes the callback.
\<close>

theorem C4_borrow_success:
  "(AwaitBorrow \<in> set (bb_awaiting s) \<longrightarrow>
      bookId (bb_step p s BorrowResolved) = [] \<and>
      bookData (bb_step p s BorrowResolved) = None \<and>
      availableCopy (bb_step p s BorrowResolved) = None \<and>
      errorMessage (bb_step p s BorrowResolved) = [] \<and>
      isBorrowing (bb_step p s BorrowResolved) = False \<and>
      borrowSuccessCalls (bb_step p s BorrowResolved) = borrowSuccessCalls s + 1 \<and>
      bb_calls (bb_step p s BorrowResolved) = bb_calls s \<and>
      bb_awaiting (bb_step p s BorrowResolved) = remove1 AwaitBorrow (bb_awaiting s)) \<and>
   (confirmation_rendered s \<and> \<not> isBorrowing s \<and> customer_id_of p = Some c \<and>
    book_id_of (bookData s) = Some b \<longrightarrow>
      bb_calls (bb_step p s ClickBorrow) = bb_calls s @ [BorrowBookCall c b] \<and>
      bb_awaiting (bb_step p s ClickBorrow) = bb_awaiting s @ [AwaitBorrow] \<and>
      borrowSuccessCalls (bb_step p s ClickBorrow) = borrowSuccessCalls s) \<and>
   (e \<noteq> BorrowResolved \<or> AwaitBorrow \<notin> set (bb_awaiting s) \<longrightarrow>
      borrowSuccessCalls (bb_step p s e) = borrowSuccessCalls s)"
proof -
  have other: "borrowSuccessCalls (bb_step p s e) = borrowSuccessCalls s"
    if "e \<noteq> BorrowResolved \<or> AwaitBorrow \<notin> set (bb_awaiting s)"
    using that
    by (cases e)
      (auto simp: searchBookCopy_def searchBookCopy_resolved_def searchBookCopy_rejected_def
        handleBorrowConfirm_def handleBorrowConfirm_rejected_def handleCancel_def Let_def
        split: option.splits)
  show ?thesis
    using other
    by (simp add: handleBorrowConfirm_resolved_def handleBorrowConfirm_def)
qed

theorem C4_borrow_success_witness:
  "bookId (bb_run (Some ann)
     [ChangeBookId ''42'', ClickFind, GetBookResolved ''42'' dune, ClickBorrow, BorrowResolved])
     = [] \<and>
   borrowSuccessCalls (bb_run (Some ann)
     [ChangeBookId ''42'', ClickFind, GetBookResolved ''42'' dune, ClickBorrow, BorrowResolved])
     = 1 \<and>
   bb_calls (bb_run (Some ann)
     [ChangeBookId ''42'', ClickFind, GetBookResolved ''42'' dune, ClickBorrow, BorrowResolved])
     = [GetBook ''42'', BorrowBookCall 3 42] \<and>
   borrowSuccessCalls (bb_run (Some ann)
     [ChangeBookId ''42'', ClickFind, GetBookResolved ''42'' dune, ClickBorrow,
      BorrowRejected ''No copies left'']) = 0"
proof -
  define s3 where "s3 = bb_run (Some ann) [ChangeBookId ''42'', ClickFind, GetBookResolved ''42'' dune]"
  define s4 where "s4 = bb_step (Some ann) s3 ClickBorrow"
  have s3: "s3 = bb_init\<lparr> bookId := ''42'', bookData := Some dune, availableCopy := Some 42,
      bb_calls := [GetBook ''42''] \<rparr>"
    by (simp add: s3_def dune_def bb_run_def bb_init_def input_enabled_def searchBookCopy_def
        searchBookCopy_resolved_def trim_def is_white_def)
  have pre: "confirmation_rendered s3 \<and> \<not> isBorrowing s3 \<and> customer_id_of (Some ann) = Some 3 \<and>
      book_id_of (bookData s3) = Some 42"
    by (simp add: s3 bb_init_def confirmation_rendered_def customer_id_of_def book_id_of_def
        ann_def dune_def)
  have s4: "bb_calls s4 = [GetBook ''42'', BorrowBookCall 3 42] \<and>
      bb_awaiting s4 = [AwaitBorrow] \<and> borrowSuccessCalls s4 = 0"
    using C4_borrow_success [of s3 "Some ann" 3 42 ClickBorrow] pre
    by (simp add: s4_def s3 bb_init_def)
  have "bookId (bb_step (Some ann) s4 BorrowResolved) = [] \<and>
      borrowSuccessCalls (bb_step (Some ann) s4 BorrowResolved) = 1 \<and>
      bb_calls (bb_step (Some ann) s4 BorrowResolved) = [GetBook ''42'', BorrowBookCall 3 42]"
    using C4_borrow_success [of s4 "Some ann" 3 42 BorrowResolved] s4 by simp
  moreover have "bb_run (Some ann) [ChangeBookId ''42'', ClickFind, GetBookResolved ''42'' dune,
      ClickBorrow, BorrowResolved] = bb_step (Some ann) s4 BorrowResolved"
    by (simp add: s4_def s3_def bb_run_def)
  moreover have "borrowSuccessCalls (bb_step (Some ann) s4 (BorrowRejected ''No copies left'')) = 0"
    using C4_borrow_success [of s4 "Some ann" 3 42 "BorrowRejected ''No copies left''"] s4
    by (simp del: bb_step.simps)
  moreover have "bb_run (Some ann) [ChangeBookId ''42'', ClickFind, GetBookResolved ''42'' dune,
      ClickBorrow, BorrowRejected ''No copies left''] =
      bb_step (Some ann) s4 (BorrowRejected ''No copies left'')"
    by (simp add: s4_def s3_def bb_run_def)
  ultimately show ?thesis by simp
qed

lemma no_copies_step:
  assumes "bb_inv s" and "AwaitGetBook c \<in> set (bb_awaiting s)" and "available_copies b = 0"
  shows "bb_step p s (GetBookResolved c b) =
      s\<lparr> bb_awaiting := remove1 (AwaitGetBook c) (bb_awaiting s), bookData := Some b,
         errorMessage := no_copies_message b, isSearching := False \<rparr>"
    and "availableCopy (bb_step p s (GetBookResolved c b)) = None"
proof -
  from assms(1,2) have "availableCopy s = None"
    by (auto simp: bb_inv_def)
  with assms(2,3) show "bb_step p s (GetBookResolved c b) =
      s\<lparr> bb_awaiting := remove1 (AwaitGetBook c) (bb_awaiting s), bookData := Some b,
         errorMessage := no_copies_message b, isSearching := False \<rparr>"
    and "availableCopy (bb_step p s (GetBookResolved c b)) = None"
    by (simp_all add: searchBookCopy_resolved_def)
qed

lemma no_copies_message_0:
  "available_copies b = 0 \<Longrightarrow>
     no_copies_message b =
       ''Book \"'' @ title b @ ''\" has no available copies (0/'' @
         show_int (copies_count b) @ '')''"
  by (simp add: no_copies_message_def)

text \<open>
  C6. When a book search answers with a book whose \<open>available_copies\<close> is 0, the error
  message is set to the text that quotes the book's title and gives its copy counts as
  "(0/copies_count)", the book data is kept, no available-copy marker is set, and so the
  confirmation block with its Borrow button is not rendered. From that state no event,
  whichever it is, makes a borrow request.
\<close>

theorem C6_no_copies:
  "AwaitGetBook c \<in> set (bb_awaiting (bb_run p evs)) \<and> available_copies b = 0 \<longrightarrow>
     errorMessage (bb_step p (bb_run p evs) (GetBookResolved c b)) =
       ''Book \"'' @ title b @ ''\" has no available copies (0/'' @
         show_int (copies_count b) @ '')'' \<and>
     bookData (bb_step p (bb_run p evs) (GetBookResolved c b)) = Some b \<and>
     availableCopy (bb_step p (bb_run p evs) (GetBookResolved c b)) = None \<and>
     isSearching (bb_step p (bb_run p evs) (GetBookResolved c b)) = False \<and>
     \<not> confirmation_rendered (bb_step p (bb_run p evs) (GetBookResolved c b)) \<and>
     bb_calls (bb_step p (bb_run p evs) (GetBookResolved c b)) = bb_calls (bb_run p evs) \<and>
     (\<forall>e. borrow_calls (bb_step p (bb_step p (bb_run p evs) (GetBookResolved c b)) e) =
          borrow_calls (bb_run p evs))"
proof (intro impI)
  assume a: "AwaitGetBook c \<in> set (bb_awaiting (bb_run p evs)) \<and> available_copies b = 0"
  define s where "s = bb_run p evs"
  define s' where "s' = bb_step p s (GetBookResolved c b)"
  have inv: "bb_inv s" by (simp add: s_def bb_inv_run)
  from a have aw: "AwaitGetBook c \<in> set (bb_awaiting s)" and zero: "available_copies b = 0"
    by (simp_all add: s_def)
  have step: "s' = s\<lparr> bb_awaiting := remove1 (AwaitGetBook c) (bb_awaiting s), bookData := Some b,
         errorMessage := no_copies_message b, isSearching := False \<rparr>"
    and none: "availableCopy s' = None"
    unfolding s'_def using no_copies_step [OF inv aw zero] by blast+
  have calls: "borrow_calls s' = borrow_calls s"
    by (simp add: step borrow_calls_def)
  have later: "borrow_calls (bb_step p s' e) = borrow_calls s" for e
    using borrow_calls_step [OF none, of p e] calls by simp
  have "errorMessage s' = ''Book \"'' @ title b @ ''\" has no available copies (0/'' @
         show_int (copies_count b) @ '')''"
    by (simp only: step no_copies_message_0 [OF zero, symmetric]) simp
  moreover have "bookData s' = Some b" "isSearching s' = False" "bb_calls s' = bb_calls s"
    by (simp_all add: step)
  moreover have "\<not> confirmation_rendered s'"
    by (simp add: confirmation_rendered_def none)
  ultimately show "errorMessage (bb_step p (bb_run p evs) (GetBookResolved c b)) =
       ''Book \"'' @ title b @ ''\" has no available copies (0/'' @
         show_int (copies_count b) @ '')'' \<and>
     bookData (bb_step p (bb_run p evs) (GetBookResolved c b)) = Some b \<and>
     availableCopy (bb_step p (bb_run p evs) (GetBookResolved c b)) = None \<and>
     isSearching (bb_step p (bb_run p evs) (GetBookResolved c b)) = False \<and>
     \<not> confirmation_rendered (bb_step p (bb_run p evs) (GetBookResolved c b)) \<and>
     bb_calls (bb_step p (bb_run p evs) (GetBookResolved c b)) = bb_calls (bb_run p evs) \<and>
     (\<forall>e. borrow_calls (bb_step p (bb_step p (bb_run p evs) (GetBookResolved c b)) e) =
          borrow_calls (bb_run p evs))"
    using none later unfolding s'_def s_def by blast
qed

theorem C6_no_copies_witness:
  "AwaitGetBook ''7'' \<in> set (bb_awaiting (bb_run (Some ann) [ChangeBookId ''7'', ClickFind])) \<and>
   available_copies emma = 0 \<and>
   errorMessage (bb_run (Some ann) [ChangeBookId ''7'', ClickFind, GetBookResolved ''7'' emma]) =
     ''Book \"Emma\" has no available copies (0/3)'' \<and>
   borrow_calls (bb_run (Some ann)
     [ChangeBookId ''7'', ClickFind, GetBookResolved ''7'' emma, ClickBorrow]) = []"
proof -
  define s where "s = bb_run (Some ann) [ChangeBookId ''7'', ClickFind]"
  have s: "s = bb_init\<lparr> bookId := ''7'', isSearching := True, bb_calls := [GetBook ''7''],
      bb_awaiting := [AwaitGetBook ''7''] \<rparr>"
    by (simp add: s_def bb_run_def bb_init_def input_enabled_def searchBookCopy_def trim_def
        is_white_def)
  have pre: "AwaitGetBook ''7'' \<in> set (bb_awaiting s) \<and> available_copies emma = 0"
    by (simp add: s emma_def)
  have run3: "bb_run (Some ann) [ChangeBookId ''7'', ClickFind, GetBookResolved ''7'' emma] =
      bb_step (Some ann) s (GetBookResolved ''7'' emma)"
    and run4: "bb_run (Some ann) [ChangeBookId ''7'', ClickFind, GetBookResolved ''7'' emma, ClickBorrow] =
      bb_step (Some ann) (bb_step (Some ann) s (GetBookResolved ''7'' emma)) ClickBorrow"
    by (simp_all add: s_def bb_run_def)
  have three: "show_int (copies_count emma) = ''3''" "title emma = ''Emma''"
    by (simp_all add: emma_def show_int_def show_nat.simps)
  have s_calls: "borrow_calls s = []"
    by (simp add: s borrow_calls_def)
  from C6_no_copies [of "''7''" "Some ann" "[ChangeBookId ''7'', ClickFind]" emma] pre
  have c6: "errorMessage (bb_step (Some ann) s (GetBookResolved ''7'' emma)) =
        ''Book \"'' @ title emma @ ''\" has no available copies (0/'' @
         show_int (copies_count emma) @ '')''"
      "borrow_calls (bb_step (Some ann) (bb_step (Some ann) s (GetBookResolved ''7'' emma)) ClickBorrow)
         = borrow_calls s"
    unfolding s_def by blast+
  show ?thesis
    unfolding run3 run4 using pre c6 s_calls
    unfolding s_def [symmetric] by (simp add: three del: bb_step.simps)
qed

section \<open>The return flow\<close>






section \<open>The HTTP client wrapper\<close>

lemma request_null_body:
  "request num (Responded \<lparr> status = 500, body = Some JNull \<rparr>) = Inl TypeError"
  by (simp add: request_def ok_def get_detail_def)

lemma request_no_content:
  "request num (Responded \<lparr> status = 204, body = None \<rparr>) = Inl SyntaxError"
  by (simp add: request_def ok_def)

lemma request_detail_with_toString:
  "request num (Responded \<lparr> status = 400,
     body = Some (JObj [(''detail'', JObj [(''toString'', JNum 1)])]) \<rparr>) = Inl TypeError"
  by (simp add: request_def ok_def get_detail_def)

text \<open>
  C9 as stated fails: a 400 response whose body is the JSON object with \<open>detail\<close> set to
  the empty string parses and contains a \<open>detail\<close> field, yet the error thrown carries
  the generic status message and not that field, because \<open>||\<close> passes over a falsy
  \<open>detail\<close>.
\<close>

theorem C9_empty_detail:
  "get_detail (JObj [(''detail'', JStr [])]) = Inr (Some (JStr [])) \<and>
   \<not> ok \<lparr> status = 400, body = Some (JObj [(''detail'', JStr [])]) \<rparr> \<and>
   request show_int (Responded \<lparr> status = 400, body = Some (JObj [(''detail'', JStr [])]) \<rparr>) =
     Inl (Error ''HTTP error! status: 400'') \<and>
   request show_int (Responded \<lparr> status = 400, body = Some (JObj [(''detail'', JStr [])]) \<rparr>) \<noteq>
     Inl (Error [])"
  by (simp add: get_detail_def ok_def request_def http_error_message_def show_nat.simps)

text \<open>
  C9, amended. A response that is not 2xx always makes \<open>request\<close> throw. When the body
  parses as JSON and holds a \<open>detail\<close> that is a non-empty string, the error's message
  is that string. For any other truthy \<open>detail\<close> the message is its JavaScript string
  conversion, and when that conversion throws, its TypeError is what \<open>request\<close> throws.
  The message is the generic "HTTP error! status: N" when the body does not parse, or
  parses to a value other than null that has no \<open>detail\<close> or a falsy one (an empty
  string, 0, false or null). A 2xx response whose body parses as JSON returns the parsed
  body.
\<close>

theorem C9_request:
  "(\<not> ok r \<longrightarrow> (\<exists>e. request num (Responded r) = Inl e)) \<and>
   (\<not> ok r \<and> body r = Some j \<and> get_detail j = Inr (Some (JStr msg)) \<and> msg \<noteq> [] \<longrightarrow>
      request num (Responded r) = Inl (Error msg)) \<and>
   (\<not> ok r \<and> body r = Some j \<and> get_detail j = Inr (Some d) \<and> truthy d \<and>
    to_string num d = Inr m \<longrightarrow>
      request num (Responded r) = Inl (Error m)) \<and>
   (\<not> ok r \<and> body r = Some j \<and> get_detail j = Inr (Some d) \<and> truthy d \<and>
    to_string num d = Inl thrown \<longrightarrow>
      request num (Responded r) = Inl thrown) \<and>
   (\<not> ok r \<and> body r = Some j \<and> get_detail j = Inr (Some d) \<and> \<not> truthy d \<longrightarrow>
      request num (Responded r) = Inl (Error (http_error_message r))) \<and>
   (\<not> ok r \<and> body r = Some j \<and> get_detail j = Inr None \<longrightarrow>
      request num (Responded r) = Inl (Error (http_error_message r))) \<and>
   (\<not> ok r \<and> body r = None \<longrightarrow>
      request num (Responded r) = Inl (Error (http_error_message r))) \<and>
   (ok r \<and> body r = Some j \<longrightarrow> request num (Responded r) = Inr j) \<and>
   ok r = (200 \<le> status r \<and> status r \<le> 299) \<and>
   http_error_message r = ''HTTP error! status: '' @ show_nat (status r) \<and>
   truthy (JStr msg) = (msg \<noteq> []) \<and>
   get_detail (JObj members) = Inr (map_of (rev members) ''detail'')"
  by (auto simp: request_def get_detail_def ok_def http_error_message_def
      split: sum.splits option.splits json.splits)

theorem C9_request_witness:
  "\<not> ok \<lparr> status = 404, body = Some (JObj [(''detail'', JStr ''Not found.'')]) \<rparr> \<and>
   request show_int
     (Responded \<lparr> status = 404, body = Some (JObj [(''detail'', JStr ''Not found.'')]) \<rparr>)
     = Inl (Error ''Not found.'') \<and>
   request show_int
     (Responded \<lparr> status = 400, body = Some (JObj [(''detail'', JArr [JStr ''a'', JNull, JStr ''b''])]) \<rparr>)
     = Inl (Error ''a,,b'') \<and>
   request show_int
     (Responded \<lparr> status = 400, body = Some (JObj [(''detail'', JObj [(''toString'', JNum 1)])]) \<rparr>)
     = Inl TypeError \<and>
   \<not> ok \<lparr> status = 500, body = None \<rparr> \<and>
   request show_int (Responded \<lparr> status = 500, body = None \<rparr>)
     = Inl (Error ''HTTP error! status: 500'') \<and>
   request show_int (Responded \<lparr> status = 400, body = Some (JObj [(''code'', JNum 3)]) \<rparr>)
     = Inl (Error ''HTTP error! status: 400'') \<and>
   request show_int (Responded \<lparr> status = 403, body = Some (JObj [(''detail'', JBool False)]) \<rparr>)
     = Inl (Error ''HTTP error! status: 403'') \<and>
   ok \<lparr> status = 200, body = Some (JObj [(''results'', JArr [])]) \<rparr> \<and>
   request show_int (Responded \<lparr> status = 200, body = Some (JObj [(''results'', JArr [])]) \<rparr>)
     = Inr (JObj [(''results'', JArr [])])"
proof -
  have d: "get_detail (JObj [(''detail'', JStr ''Not found.'')]) = Inr (Some (JStr ''Not found.''))"
      "get_detail (JObj [(''detail'', JArr [JStr ''a'', JNull, JStr ''b''])]) =
         Inr (Some (JArr [JStr ''a'', JNull, JStr ''b'']))"
      "get_detail (JObj [(''detail'', JObj [(''toString'', JNum 1)])]) =
         Inr (Some (JObj [(''toString'', JNum 1)]))"
      "get_detail (JObj [(''code'', JNum 3)]) = Inr None"
      "get_detail (JObj [(''detail'', JBool False)]) = Inr (Some (JBool False))"
    by (simp_all add: get_detail_def)
  have conv: "to_string show_int (JArr [JStr ''a'', JNull, JStr ''b'']) = Inr ''a,,b''"
      "to_string show_int (JObj [(''toString'', JNum 1)]) = Inl TypeError"
    by simp_all
  have oks: "\<not> ok \<lparr> status = 404, body = Some (JObj [(''detail'', JStr ''Not found.'')]) \<rparr>"
      "\<not> ok \<lparr> status = 400, body = Some (JObj [(''detail'', JArr [JStr ''a'', JNull, JStr ''b''])]) \<rparr>"
      "\<not> ok \<lparr> status = 400, body = Some (JObj [(''detail'', JObj [(''toString'', JNum 1)])]) \<rparr>"
      "\<not> ok \<lparr> status = 500, body = None \<rparr>"
      "\<not> ok \<lparr> status = 400, body = Some (JObj [(''code'', JNum 3)]) \<rparr>"
      "\<not> ok \<lparr> status = 403, body = Some (JObj [(''detail'', JBool False)]) \<rparr>"
      "ok \<lparr> status = 200, body = Some (JObj [(''results'', JArr [])]) \<rparr>"
    by (simp_all add: ok_def)
  have n: "show_nat 500 = ''500''" "show_nat 400 = ''400''" "show_nat 403 = ''403''"
    by (simp_all add: show_nat.simps)
  show ?thesis
    using oks d conv
      C9_request [where num = show_int
        and r = "\<lparr> status = 404, body = Some (JObj [(''detail'', JStr ''Not found.'')]) \<rparr>"
        and j = "JObj [(''detail'', JStr ''Not found.'')]" and msg = "''Not found.''"]
      C9_request [where num = show_int
        and r = "\<lparr> status = 400, body = Some (JObj [(''detail'', JArr [JStr ''a'', JNull, JStr ''b''])]) \<rparr>"
        and j = "JObj [(''detail'', JArr [JStr ''a'', JNull, JStr ''b''])]"
        and d = "JArr [JStr ''a'', JNull, JStr ''b'']" and m = "''a,,b''"]
      C9_request [where num = show_int
        and r = "\<lparr> status = 400, body = Some (JObj [(''detail'', JObj [(''toString'', JNum 1)])]) \<rparr>"
        and j = "JObj [(''detail'', JObj [(''toString'', JNum 1)])]"
        and d = "JObj [(''toString'', JNum 1)]" and thrown = TypeError]
      C9_request [where num = show_int and r = "\<lparr> status = 500, body = None \<rparr>"]
      C9_request [where num = show_int
        and r = "\<lparr> status = 400, body = Some (JObj [(''code'', JNum 3)]) \<rparr>"
        and j = "JObj [(''code'', JNum 3)]"]
      C9_request [where num = show_int
        and r = "\<lparr> status = 403, body = Some (JObj [(''detail'', JBool False)]) \<rparr>"
        and j = "JObj [(''detail'', JBool False)]" and d = "JBool False"]
      C9_request [where num = show_int
        and r = "\<lparr> status = 200, body = Some (JObj [(''results'', JArr [])]) \<rparr>"
        and j = "JObj [(''results'', JArr [])]"]
    by (simp add: n)
qed

section \<open>The book search component: invariants\<close>

lemma awaiting_okD:
  "awaiting_ok s \<Longrightarrow> (j, q) \<in> set (awaiting_search s) \<Longrightarrow> j \<le> requestIdRef s \<and> q \<noteq> []"
  unfolding awaiting_ok_def by blast

lemma awaiting_boundedD:
  "awaiting_bounded s \<Longrightarrow> (j, q) \<in> set (awaiting_search s) \<Longrightarrow> j \<le> requestIdRef s \<and> q \<noteq> []"
  unfolding awaiting_bounded_def by blast

lemma awaiting_ok_bounded: "awaiting_ok s \<Longrightarrow> awaiting_bounded s"
  unfolding awaiting_ok_def awaiting_bounded_def by blast

lemma bs_inv_bounded: "bs_inv s \<Longrightarrow> awaiting_bounded s"
  by (simp add: bs_inv_def awaiting_ok_bounded)

lemma awaiting_bounded_frame:
  "awaiting_bounded s \<Longrightarrow> requestIdRef s' = requestIdRef s \<Longrightarrow>
     awaiting_search s' = awaiting_search s \<Longrightarrow> awaiting_bounded s'"
  by (simp add: awaiting_bounded_def)

lemma bs_inv_effect:
  assumes "awaiting_bounded s"
  shows "bs_inv (debounce_effect s)"
proof (cases "trim (searchValue s) = []")
  case True
  then have eq: "debounce_effect s = s\<lparr> searchTimeoutRef := None, suggestions := [],
      showPopup := False, selectedBook := None, currentSearchRef := [],
      onBookSelect_calls := onBookSelect_calls s @ [None] \<rparr>"
    by (simp add: debounce_effect_def)
  show ?thesis
    unfolding eq bs_inv_def timer_ok_def awaiting_ok_def blank_ok_def
    using assms True by (simp add: awaiting_bounded_def)
next
  case False
  then have eq: "debounce_effect s = s\<lparr> searchTimeoutRef :=
      Some (clock s + 300, requestIdRef s + 1, trim (searchValue s)),
      requestIdRef := requestIdRef s + 1 \<rparr>"
    by (simp add: debounce_effect_def)
  have "j \<le> requestIdRef s \<and> q \<noteq> [] \<and> j \<noteq> requestIdRef s + 1"
    if "(j, q) \<in> set (awaiting_search s)" for j q
    using awaiting_boundedD [OF assms that] by simp
  then show ?thesis
    unfolding eq bs_inv_def timer_ok_def awaiting_ok_def blank_ok_def
    using False by (simp add: le_Suc_eq)
qed

lemma bs_inv_init: "bs_inv bs_init"
  unfolding bs_init_def by (rule bs_inv_effect) (simp add: awaiting_bounded_def)

text \<open>Fields the invariant does not read may change; awaited lookups may be dropped.\<close>

lemma bs_inv_frame:
  assumes "bs_inv s"
    and "searchTimeoutRef s' = searchTimeoutRef s" and "requestIdRef s' = requestIdRef s"
    and "searchValue s' = searchValue s" and "currentSearchRef s' = currentSearchRef s"
    and "set (awaiting_search s') \<subseteq> set (awaiting_search s)"
  shows "bs_inv s'"
proof -
  from assms(1) have t: "timer_ok s" and a: "awaiting_ok s" and b: "blank_ok s"
    by (simp_all add: bs_inv_def)
  have "timer_ok s'"
    using t by (simp add: timer_ok_def assms(2-4))
  moreover have "awaiting_ok s'"
    unfolding awaiting_ok_def assms(3,4)
    using a assms(6) unfolding awaiting_ok_def by blast
  moreover have "blank_ok s'"
    using b by (simp add: blank_ok_def assms(2,4,5))
  ultimately show ?thesis by (simp add: bs_inv_def)
qed

lemma bs_inv_rerender:
  assumes "awaiting_bounded s" and "searchValue s = previous \<Longrightarrow> bs_inv s"
  shows "bs_inv (rerender previous s)"
  using assms by (simp add: rerender_def bs_inv_effect)

lemma bs_inv_handleInputChange:
  assumes "bs_inv s"
  shows "bs_inv (handleInputChange v s)"
proof -
  define s2 where "s2 = (case selectedBook s of
      None \<Rightarrow> s\<lparr> searchValue := v \<rparr>
    | Some b \<Rightarrow>
        if v \<noteq> title b
        then s\<lparr> searchValue := v, selectedBook := None,
               onBookSelect_calls := onBookSelect_calls s @ [None] \<rparr>
        else s\<lparr> searchValue := v \<rparr>)"
  have fields: "searchTimeoutRef s2 = searchTimeoutRef s" "requestIdRef s2 = requestIdRef s"
      "searchValue s2 = v" "currentSearchRef s2 = currentSearchRef s"
      "awaiting_search s2 = awaiting_search s"
    by (simp_all add: s2_def split: option.splits)
  have "awaiting_bounded s2"
    using bs_inv_bounded [OF assms] fields(2,5) by (rule awaiting_bounded_frame)
  moreover have "bs_inv s2" if "searchValue s2 = searchValue s"
    using assms by (rule bs_inv_frame) (simp_all add: fields(1,2,4,5) that)
  ultimately have "bs_inv (rerender (searchValue s) s2)"
    by (rule bs_inv_rerender)
  then show ?thesis
    by (simp add: handleInputChange_def s2_def Let_def)
qed

lemma bs_inv_timer_fired:
  assumes "bs_inv s"
  shows "bs_inv (timer_fired s)"
proof (cases "searchTimeoutRef s")
  case None
  with assms show ?thesis by (simp add: timer_fired_def)
next
  case (Some tm)
  obtain due i q where tm: "tm = (due, i, q)" by (cases tm)
  from assms have t: "timer_ok s" and a: "awaiting_ok s" and b: "blank_ok s"
    by (simp_all add: bs_inv_def)
  from t Some tm have iq: "i = requestIdRef s" "q = trim (searchValue s)" "q \<noteq> []"
    unfolding timer_ok_def by blast+
  show ?thesis
  proof (cases "clock s < due")
    case True
    with assms Some tm show ?thesis by (simp add: timer_fired_def)
  next
    case False
    then have eq: "timer_fired s = s\<lparr> searchTimeoutRef := None, currentSearchRef := q,
        isLoading := True, searchBooks_calls := searchBooks_calls s @ [(clock s, q)],
        awaiting_search := awaiting_search s @ [(i, q)] \<rparr>"
      by (simp add: timer_fired_def Some tm)
    have "timer_ok (timer_fired s)"
      by (simp add: eq timer_ok_def)
    moreover have "awaiting_ok (timer_fired s)"
      using a iq unfolding eq awaiting_ok_def by auto
    moreover have "blank_ok (timer_fired s)"
      using iq by (simp add: eq blank_ok_def)
    ultimately show ?thesis by (simp add: bs_inv_def)
  qed
qed

lemma bs_inv_select:
  assumes "bs_inv s"
  shows "bs_inv (handleSelectSuggestion sg s)"
proof -
  define s1 where "s1 = s\<lparr> searchTimeoutRef := None, searchValue := sg_text sg,
      showPopup := False, isLoading := True, getBook_calls := getBook_calls s @ [sg_id sg],
      awaiting_book := awaiting_book s @ [sg_id sg] \<rparr>"
  from assms have a: "awaiting_ok s" and b: "blank_ok s"
    by (simp_all add: bs_inv_def)
  have "awaiting_bounded s1"
    using bs_inv_bounded [OF assms] by (rule awaiting_bounded_frame) (simp_all add: s1_def)
  moreover have "bs_inv s1" if "searchValue s1 = searchValue s"
  proof -
    from that have eq: "sg_text sg = searchValue s" by (simp add: s1_def)
    have "timer_ok s1" by (simp add: s1_def timer_ok_def)
    moreover have "awaiting_ok s1" using a by (simp add: s1_def awaiting_ok_def eq)
    moreover have "blank_ok s1" using b by (simp add: s1_def blank_ok_def eq)
    ultimately show ?thesis by (simp add: bs_inv_def)
  qed
  ultimately have "bs_inv (rerender (searchValue s) s1)"
    by (rule bs_inv_rerender)
  then show ?thesis by (simp add: handleSelectSuggestion_def s1_def)
qed

lemma bs_inv_clear:
  assumes "bs_inv s"
  shows "bs_inv (clearSelection s)"
proof -
  define s1 where "s1 = s\<lparr> searchTimeoutRef := None, searchValue := [], selectedBook := None,
      suggestions := [], showPopup := False, currentSearchRef := [],
      onBookSelect_calls := onBookSelect_calls s @ [None] \<rparr>"
  have bounded: "awaiting_bounded s1"
    using bs_inv_bounded [OF assms] by (rule awaiting_bounded_frame) (simp_all add: s1_def)
  have "bs_inv s1"
  proof -
    have "timer_ok s1" by (simp add: s1_def timer_ok_def)
    moreover have "awaiting_ok s1"
      using bounded by (simp add: s1_def awaiting_ok_def awaiting_bounded_def)
    moreover have "blank_ok s1" by (simp add: s1_def blank_ok_def)
    ultimately show ?thesis by (simp add: bs_inv_def)
  qed
  with bounded have "bs_inv (rerender (searchValue s) s1)"
    by (simp add: bs_inv_rerender)
  then show ?thesis by (simp add: clearSelection_def s1_def)
qed

lemma bs_inv_step:
  assumes "bs_inv s"
  shows "bs_inv (bs_step s e)"
proof (cases e)
  case (InputChange v)
  with assms show ?thesis by (simp add: bs_inv_handleInputChange)
next
  case (Elapse d)
  from assms show ?thesis unfolding Elapse bs_step.simps by (rule bs_inv_frame) simp_all
next
  case TimerFire
  with assms show ?thesis by (simp add: bs_inv_timer_fired)
next
  case (SearchResolved i q r)
  have "bs_inv (search_resolved i q r (s\<lparr> awaiting_search := remove1 (i, q) (awaiting_search s) \<rparr>))"
    using assms by (rule bs_inv_frame) (simp_all add: search_resolved_def set_remove1_subset)
  with assms show ?thesis by (simp add: SearchResolved)
next
  case (SearchRejected i q)
  have "bs_inv (search_rejected i q (s\<lparr> awaiting_search := remove1 (i, q) (awaiting_search s) \<rparr>))"
    using assms by (rule bs_inv_frame) (simp_all add: search_rejected_def set_remove1_subset)
  with assms show ?thesis by (simp add: SearchRejected)
next
  case Focus
  from assms show ?thesis unfolding Focus bs_step.simps
    by (rule bs_inv_frame) (simp_all add: handleFocus_def)
next
  case Blur
  from assms show ?thesis unfolding Blur bs_step.simps
    by (rule bs_inv_frame) (simp_all add: handleBlur_def)
next
  case (BlurTimeout due)
  from assms show ?thesis unfolding BlurTimeout bs_step.simps
    by (rule bs_inv_frame) simp_all
next
  case (SelectSuggestion sg)
  with assms show ?thesis by (simp add: bs_inv_select)
next
  case (GetBookSettled i r)
  have "bs_inv (getBook_resolved b (s\<lparr> awaiting_book := l \<rparr>))" for b l
    using assms by (rule bs_inv_frame) (simp_all add: getBook_resolved_def)
  moreover have "bs_inv (getBook_rejected (s\<lparr> awaiting_book := l \<rparr>))" for l
    using assms by (rule bs_inv_frame) (simp_all add: getBook_rejected_def)
  ultimately show ?thesis
    using assms by (simp add: GetBookSettled split: option.splits)
next
  case ClearSelection
  with assms show ?thesis by (simp add: bs_inv_clear)
next
  case PropsChange
  with assms show ?thesis by (simp add: bs_inv_effect bs_inv_bounded)
qed

lemma bs_inv_run: "bs_inv (bs_run evs)"
  unfolding bs_run_def
  by (induction evs rule: rev_induct) (simp_all add: bs_inv_init bs_inv_step)

lemma debounce_effect_fields [simp]:
  "searchValue (debounce_effect s) = searchValue s"
  "clock (debounce_effect s) = clock s"
  "searchBooks_calls (debounce_effect s) = searchBooks_calls s"
  "awaiting_search (debounce_effect s) = awaiting_search s"
  "getBook_calls (debounce_effect s) = getBook_calls s"
  "awaiting_book (debounce_effect s) = awaiting_book s"
  "isLoading (debounce_effect s) = isLoading s"
  by (simp_all add: debounce_effect_def Let_def)

lemma rerender_fields [simp]:
  "searchValue (rerender previous s) = searchValue s"
  "clock (rerender previous s) = clock s"
  "searchBooks_calls (rerender previous s) = searchBooks_calls s"
  "awaiting_search (rerender previous s) = awaiting_search s"
  "getBook_calls (rerender previous s) = getBook_calls s"
  "awaiting_book (rerender previous s) = awaiting_book s"
  "isLoading (rerender previous s) = isLoading s"
  by (simp_all add: rerender_def)

lemma handleInputChange_fields [simp]:
  "searchValue (handleInputChange v s) = v"
  "clock (handleInputChange v s) = clock s"
  "searchBooks_calls (handleInputChange v s) = searchBooks_calls s"
  "awaiting_search (handleInputChange v s) = awaiting_search s"
  "getBook_calls (handleInputChange v s) = getBook_calls s"
  "awaiting_book (handleInputChange v s) = awaiting_book s"
  "isLoading (handleInputChange v s) = isLoading s"
  by (simp_all add: handleInputChange_def Let_def split: option.splits)

lemma handleSelectSuggestion_fields [simp]:
  "searchValue (handleSelectSuggestion sg s) = sg_text sg"
  "clock (handleSelectSuggestion sg s) = clock s"
  "searchBooks_calls (handleSelectSuggestion sg s) = searchBooks_calls s"
  "awaiting_search (handleSelectSuggestion sg s) = awaiting_search s"
  by (simp_all add: handleSelectSuggestion_def)

lemma clearSelection_fields [simp]:
  "searchValue (clearSelection s) = []"
  "clock (clearSelection s) = clock s"
  "searchBooks_calls (clearSelection s) = searchBooks_calls s"
  "awaiting_search (clearSelection s) = awaiting_search s"
  by (simp_all add: clearSelection_def)

lemma bs_timing_effect: "t \<le> clock s \<Longrightarrow> bs_timing (debounce_effect s) t"
  by (simp add: bs_timing_def debounce_effect_def Let_def)

lemma bs_timing_rerender:
  assumes "searchValue s = previous \<Longrightarrow> bs_timing s t"
  shows "bs_timing (rerender previous s) (if searchValue s \<noteq> previous then clock s else t)"
  using assms by (simp add: rerender_def bs_timing_effect)

lemma bs_timing_frame:
  assumes "bs_timing s t" and "t \<le> clock s \<Longrightarrow> t \<le> clock s'"
    and "searchTimeoutRef s' = searchTimeoutRef s \<or> searchTimeoutRef s' = None"
  shows "bs_timing s' t"
  using assms unfolding bs_timing_def by auto

lemma bs_timing_handleInputChange:
  assumes "bs_timing s t"
  shows "bs_timing (handleInputChange v s) (if v \<noteq> searchValue s then clock s else t)"
proof -
  define s2 where "s2 = (case selectedBook s of
      None \<Rightarrow> s\<lparr> searchValue := v \<rparr>
    | Some b \<Rightarrow>
        if v \<noteq> title b
        then s\<lparr> searchValue := v, selectedBook := None,
               onBookSelect_calls := onBookSelect_calls s @ [None] \<rparr>
        else s\<lparr> searchValue := v \<rparr>)"
  have fields: "searchValue s2 = v" "clock s2 = clock s"
    and timer: "searchTimeoutRef s2 = searchTimeoutRef s"
    by (simp_all add: s2_def split: option.splits)
  have "bs_timing s2 t"
    using assms by (rule bs_timing_frame) (simp_all add: fields timer)
  then have "bs_timing (rerender (searchValue s) s2)
      (if searchValue s2 \<noteq> searchValue s then clock s2 else t)"
    by (intro bs_timing_rerender)
  moreover have "handleInputChange v s = rerender (searchValue s) s2"
    by (simp add: handleInputChange_def s2_def Let_def)
  ultimately show ?thesis by (simp only: fields)
qed

lemma bs_timing_select:
  assumes "bs_timing s t"
  shows "bs_timing (handleSelectSuggestion sg s)
      (if sg_text sg \<noteq> searchValue s then clock s else t)"
proof -
  define s1 where "s1 = s\<lparr> searchTimeoutRef := None, searchValue := sg_text sg,
      showPopup := False, isLoading := True, getBook_calls := getBook_calls s @ [sg_id sg],
      awaiting_book := awaiting_book s @ [sg_id sg] \<rparr>"
  have fields: "searchValue s1 = sg_text sg" "clock s1 = clock s"
    by (simp_all add: s1_def)
  have "bs_timing s1 t"
    using assms by (rule bs_timing_frame) (simp_all add: s1_def)
  then have "bs_timing (rerender (searchValue s) s1)
      (if searchValue s1 \<noteq> searchValue s then clock s1 else t)"
    by (intro bs_timing_rerender)
  moreover have "handleSelectSuggestion sg s = rerender (searchValue s) s1"
    by (simp add: handleSelectSuggestion_def s1_def)
  ultimately show ?thesis by (simp only: fields)
qed

lemma bs_timing_clear:
  assumes "bs_timing s t"
  shows "bs_timing (clearSelection s) (if [] \<noteq> searchValue s then clock s else t)"
proof -
  define s1 where "s1 = s\<lparr> searchTimeoutRef := None, searchValue := [], selectedBook := None,
      suggestions := [], showPopup := False, currentSearchRef := [],
      onBookSelect_calls := onBookSelect_calls s @ [None] \<rparr>"
  have fields: "searchValue s1 = []" "clock s1 = clock s"
    by (simp_all add: s1_def)
  have "bs_timing s1 t"
    using assms by (rule bs_timing_frame) (simp_all add: s1_def)
  then have "bs_timing (rerender (searchValue s) s1)
      (if searchValue s1 \<noteq> searchValue s then clock s1 else t)"
    by (intro bs_timing_rerender)
  moreover have "clearSelection s = rerender (searchValue s) s1"
    by (simp add: clearSelection_def s1_def)
  ultimately show ?thesis by (simp only: fields)
qed

lemma bs_timing_step:
  assumes "bs_timing s t"
  shows "bs_timing (bs_step s e) (if searchValue (bs_step s e) \<noteq> searchValue s then clock s else t)"
proof (cases e)
  case (InputChange v)
  from bs_timing_handleInputChange [OF assms, of v] show ?thesis
    by (simp add: InputChange split: if_splits)
next
  case (Elapse d)
  have "bs_timing (s\<lparr> clock := clock s + d \<rparr>) t"
    using assms by (rule bs_timing_frame) simp_all
  then show ?thesis by (simp add: Elapse)
next
  case TimerFire
  have "bs_timing (timer_fired s) t"
    using assms by (rule bs_timing_frame) (auto simp: timer_fired_def split: option.splits)
  moreover have "searchValue (timer_fired s) = searchValue s"
    by (simp add: timer_fired_def split: option.splits prod.splits)
  ultimately show ?thesis by (simp add: TimerFire)
next
  case (SearchResolved i q r)
  have "bs_timing (bs_step s e) t"
    using assms by (rule bs_timing_frame) (simp_all add: SearchResolved search_resolved_def)
  moreover have "searchValue (bs_step s e) = searchValue s"
    by (simp add: SearchResolved search_resolved_def)
  ultimately show ?thesis by simp
next
  case (SearchRejected i q)
  have "bs_timing (bs_step s e) t"
    using assms by (rule bs_timing_frame) (simp_all add: SearchRejected search_rejected_def)
  moreover have "searchValue (bs_step s e) = searchValue s"
    by (simp add: SearchRejected search_rejected_def)
  ultimately show ?thesis by simp
next
  case Focus
  have "bs_timing (bs_step s e) t"
    using assms by (rule bs_timing_frame) (simp_all add: Focus handleFocus_def)
  moreover have "searchValue (bs_step s e) = searchValue s"
    by (simp add: Focus handleFocus_def)
  ultimately show ?thesis by simp
next
  case Blur
  have "bs_timing (bs_step s e) t"
    using assms by (rule bs_timing_frame) (simp_all add: Blur handleBlur_def)
  moreover have "searchValue (bs_step s e) = searchValue s"
    by (simp add: Blur handleBlur_def)
  ultimately show ?thesis by simp
next
  case (BlurTimeout due)
  have "bs_timing (bs_step s e) t"
    using assms by (rule bs_timing_frame) (simp_all add: BlurTimeout)
  moreover have "searchValue (bs_step s e) = searchValue s"
    by (simp add: BlurTimeout)
  ultimately show ?thesis by simp
next
  case (SelectSuggestion sg)
  from bs_timing_select [OF assms, of sg] assms show ?thesis
    by (simp add: SelectSuggestion split: if_splits)
next
  case (GetBookSettled i r)
  have "bs_timing (bs_step s e) t"
    using assms
    by (rule bs_timing_frame)
      (simp_all add: GetBookSettled getBook_resolved_def getBook_rejected_def split: option.splits)
  moreover have "searchValue (bs_step s e) = searchValue s"
    by (simp add: GetBookSettled getBook_resolved_def getBook_rejected_def split: option.splits)
  ultimately show ?thesis by simp
next
  case ClearSelection
  from bs_timing_clear [OF assms] assms show ?thesis
    by (simp add: ClearSelection split: if_splits)
next
  case PropsChange
  from assms have "t \<le> clock s" by (simp add: bs_timing_def)
  then show ?thesis by (simp add: PropsChange bs_timing_effect)
qed

lemma last_change_snoc:
  "last_change s t (evs @ [e]) =
     (if searchValue (bs_step (foldl bs_step s evs) e) \<noteq> searchValue (foldl bs_step s evs)
      then clock (foldl bs_step s evs) else last_change s t evs)"
  by (induction evs arbitrary: s t) simp_all

lemma bs_timing_run: "bs_timing (bs_run evs) (last_input_change evs)"
proof (induction evs rule: rev_induct)
  case Nil
  show ?case
    by (simp add: bs_run_def last_input_change_def bs_init_def bs_timing_effect)
next
  case (snoc e evs)
  from bs_timing_step [OF snoc, of e] show ?case
    unfolding bs_run_def last_input_change_def
    by (simp add: last_change_snoc split: if_splits)
qed

lemma dispatch_only_by_timer:
  assumes "searchBooks_calls (bs_step s e) \<noteq> searchBooks_calls s"
  shows "e = TimerFire \<and>
    (\<exists>due i q. searchTimeoutRef s = Some (due, i, q) \<and> due \<le> clock s \<and>
       searchBooks_calls (bs_step s e) = searchBooks_calls s @ [(clock s, q)] \<and>
       searchTimeoutRef (bs_step s e) = None)"
proof (cases e)
  case TimerFire
  with assms show ?thesis
    by (auto simp: timer_fired_def split: option.splits if_splits)
qed (use assms in \<open>auto simp: search_resolved_def search_rejected_def handleFocus_def
    handleBlur_def getBook_resolved_def getBook_rejected_def split: option.splits if_splits\<close>)

lemma calm_step:
  assumes "searchTimeoutRef s = None" and "e \<noteq> PropsChange"
    and "searchValue (bs_step s e) = searchValue s"
  shows "searchTimeoutRef (bs_step s e) = None \<and>
    searchBooks_calls (bs_step s e) = searchBooks_calls s"
proof (cases e)
  case (InputChange v)
  with assms(3) have "v = searchValue s" by simp
  with assms(1) show ?thesis
    by (simp add: InputChange handleInputChange_def rerender_def Let_def split: option.splits)
next
  case (SelectSuggestion sg)
  show ?thesis
  proof (cases "suggestion_rendered s sg")
    case True
    with assms(3) have "sg_text sg = searchValue s" by (simp add: SelectSuggestion)
    with True show ?thesis
      by (simp add: SelectSuggestion handleSelectSuggestion_def rerender_def)
  next
    case False
    with assms(1) show ?thesis by (simp add: SelectSuggestion)
  qed
next
  case ClearSelection
  show ?thesis
  proof (cases "selectedBook s \<noteq> None \<or> searchValue s \<noteq> []")
    case True
    with assms(3) have "searchValue s = []" by (simp add: ClearSelection)
    with True show ?thesis
      by (simp add: ClearSelection clearSelection_def rerender_def)
  next
    case False
    with assms(1) show ?thesis by (simp add: ClearSelection)
  qed
next
  case PropsChange
  with assms(2) show ?thesis by simp
qed (use assms(1) in \<open>auto simp: timer_fired_def search_resolved_def search_rejected_def
    handleFocus_def handleBlur_def getBook_resolved_def getBook_rejected_def
    split: option.splits\<close>)

lemma calm_steps:
  assumes "searchTimeoutRef s = None" and "calm s post"
  shows "searchTimeoutRef (foldl bs_step s post) = None \<and>
    searchBooks_calls (foldl bs_step s post) = searchBooks_calls s"
  using assms
proof (induction post arbitrary: s)
  case Nil
  then show ?case by simp
next
  case (Cons e post)
  from Cons.prems(2) have e: "e \<noteq> PropsChange" "searchValue (bs_step s e) = searchValue s"
    and rest: "calm (bs_step s e) post"
    by simp_all
  from calm_step [OF Cons.prems(1) e] Cons.IH [of "bs_step s e", OF _ rest]
  show ?case by simp
qed

lemma trim_Al [simp]: "trim ''Al'' = ''Al''" "trim ''Ali'' = ''Ali''"
  by (simp_all add: trim_def is_white_def)

lemma typing_Al_Ali:
  assumes "d \<le> 100" and "300 \<le> d'"
  shows "searchBooks_calls
      (bs_run [InputChange ''Al'', Elapse d, TimerFire, InputChange ''Ali'', Elapse d', TimerFire])
    = [(d + d', ''Ali'')]"
  using assms
  by (simp add: bs_run_def bs_init_def debounce_effect_def handleInputChange_def rerender_def
      timer_fired_def Let_def)

section \<open>The search components: properties\<close>

text \<open>
  C8. In the book search component, when a book is selected and the input text is
  edited to a value different from the selected book's title, \<open>handleInputChange\<close>
  itself resets the selection to null and calls \<open>onBookSelect(null)\<close> (the effect that
  follows calls it once more if the new text is blank); the handler calls neither
  \<open>searchBooks\<close> nor \<open>getBook\<close>, so this happens before any network call.
\<close>

theorem C8_edit_invalidates_selection:
  "selectedBook s = Some b \<and> v \<noteq> title b \<longrightarrow>
     selectedBook (handleInputChange v s) = None \<and>
     (onBookSelect_calls (handleInputChange v s) = onBookSelect_calls s @ [None] \<or>
      onBookSelect_calls (handleInputChange v s) = onBookSelect_calls s @ [None, None]) \<and>
     searchBooks_calls (handleInputChange v s) = searchBooks_calls s \<and>
     awaiting_search (handleInputChange v s) = awaiting_search s \<and>
     getBook_calls (handleInputChange v s) = getBook_calls s \<and>
     awaiting_book (handleInputChange v s) = awaiting_book s \<and>
     bs_step s (InputChange v) = handleInputChange v s"
  by (simp add: handleInputChange_def rerender_def debounce_effect_def Let_def)

theorem C8_edit_invalidates_selection_witness:
  "selectedBook (bs_init\<lparr> searchValue := ''Dune'', selectedBook := Some dune \<rparr>) = Some dune \<and>
   ''Dun'' \<noteq> title dune \<and>
   selectedBook (bs_step (bs_init\<lparr> searchValue := ''Dune'', selectedBook := Some dune \<rparr>)
     (InputChange ''Dun'')) = None \<and>
   onBookSelect_calls (bs_step (bs_init\<lparr> searchValue := ''Dune'', selectedBook := Some dune \<rparr>)
     (InputChange ''Dun'')) = [None, None] \<and>
   searchBooks_calls (bs_step (bs_init\<lparr> searchValue := ''Dune'', selectedBook := Some dune \<rparr>)
     (InputChange ''Dun'')) = []"
proof -
  define s where "s = bs_init\<lparr> searchValue := ''Dune'', selectedBook := Some dune \<rparr>"
  have pre: "selectedBook s = Some dune \<and> ''Dun'' \<noteq> title dune"
    by (simp add: s_def dune_def)
  have init: "onBookSelect_calls s = [None]" "searchBooks_calls s = []"
    by (simp_all add: s_def bs_init_def debounce_effect_def)
  have two: "onBookSelect_calls (handleInputChange ''Dun'' s) \<noteq> onBookSelect_calls s @ [None, None]"
    by (simp add: s_def dune_def bs_init_def handleInputChange_def rerender_def
        debounce_effect_def Let_def trim_def is_white_def)
  from C8_edit_invalidates_selection [of s dune "''Dun''"] pre two
  show ?thesis
    unfolding s_def [symmetric] by (simp add: init del: bs_step.simps)
qed

lemma blank_change_clears:
  assumes "v \<noteq> searchValue s" and "trim v = []"
  shows "suggestions (handleInputChange v s) = []"
    and "\<not> showPopup (handleInputChange v s)"
    and "selectedBook (handleInputChange v s) = None"
    and "onBookSelect_calls (handleInputChange v s) = onBookSelect_calls s @ [None] \<or>
         onBookSelect_calls (handleInputChange v s) = onBookSelect_calls s @ [None, None]"
    and "searchTimeoutRef (handleInputChange v s) = None"
    and "currentSearchRef (handleInputChange v s) = []"
    and "requestIdRef (handleInputChange v s) = requestIdRef s"
  using assms
  by (auto simp: handleInputChange_def rerender_def debounce_effect_def Let_def
      split: option.splits)

lemma late_response_discarded:
  assumes "currentSearchRef s = []" and "q \<noteq> []"
  shows "bs_step s (SearchResolved i q r) = s \<or>
         bs_step s (SearchResolved i q r) = s\<lparr> awaiting_search := remove1 (i, q) (awaiting_search s) \<rparr>"
    and "bs_step s (SearchRejected i q) = s \<or>
         bs_step s (SearchRejected i q) = s\<lparr> awaiting_search := remove1 (i, q) (awaiting_search s) \<rparr>"
  using assms by (auto simp: search_resolved_def search_rejected_def isStillCurrent_def)

lemma bs_run_snoc: "bs_run (evs @ [e]) = bs_step (bs_run evs) e"
  by (simp add: bs_run_def)

lemma bs_run_Al:
  "bs_run [InputChange ''Al'', Elapse 300, TimerFire] =
     bs_init\<lparr> searchValue := ''Al'', isLoading := True, currentSearchRef := ''Al'',
              requestIdRef := 1, clock := 300, searchBooks_calls := [(300, ''Al'')],
              awaiting_search := [(1, ''Al'')] \<rparr>"
  by (simp add: bs_run_def bs_init_def debounce_effect_def handleInputChange_def rerender_def
      timer_fired_def Let_def)

text \<open>
  C3 as stated fails for the customer variant: SearchBar holds no selection of its own
  and its only callback is \<open>onSelectSuggestion\<close>, which \<open>handleInputChange\<close> never calls.
  After a customer has been selected, clearing the input empties the suggestions and
  closes the popup, but the parent is told nothing: the last thing it was handed is
  still the selected customer.
\<close>

theorem C3_customer_clear_is_silent:
  "cs_selected (cs_run [CsInputChange ''Al'', CsSearchResolved ''Al'' (Some [allen]),
      CsSelectSuggestion allen]) = [allen] \<and>
   cs_selected (cs_run [CsInputChange ''Al'', CsSearchResolved ''Al'' (Some [allen]),
      CsSelectSuggestion allen, CsInputChange []]) = [allen]"
  by (simp add: cs_run_def cs_init_def cs_handleInputChange_def cs_search_resolved_def
      cs_handleSelectSuggestion_def suggestion_rendered_def suggestions_of_def Let_def)

text \<open>
  C3, amended. In the book search component, changing the input to the empty string or
  to white space only has its whole effect at once, with no timer involved: the
  suggestions are [], the popup is closed, the selection is null, \<open>onBookSelect(null)\<close>
  has been called, the pending timer is cancelled and no lookup is dispatched. Lookups
  still in flight change none of this when they complete, whatever they answer. In the
  customer search component, setting the input to the empty string or to white space
  only at once yields suggestions = [] and a closed popup and makes no request; that
  component holds no selection and tells its parent nothing.
\<close>

theorem C3_blank_input:
  "(v \<noteq> searchValue s \<and> trim v = [] \<longrightarrow>
      bs_step s (InputChange v) = handleInputChange v s \<and>
      suggestions (handleInputChange v s) = [] \<and>
      \<not> showPopup (handleInputChange v s) \<and>
      selectedBook (handleInputChange v s) = None \<and>
      (onBookSelect_calls (handleInputChange v s) = onBookSelect_calls s @ [None] \<or>
       onBookSelect_calls (handleInputChange v s) = onBookSelect_calls s @ [None, None]) \<and>
      searchTimeoutRef (handleInputChange v s) = None \<and>
      searchBooks_calls (handleInputChange v s) = searchBooks_calls s \<and>
      awaiting_search (handleInputChange v s) = awaiting_search s) \<and>
   (v \<noteq> searchValue (bs_run evs) \<and> trim v = [] \<and>
    (i, q) \<in> set (awaiting_search (bs_run evs)) \<longrightarrow>
      suggestions (bs_step (handleInputChange v (bs_run evs)) (SearchResolved i q r)) = [] \<and>
      \<not> showPopup (bs_step (handleInputChange v (bs_run evs)) (SearchResolved i q r)) \<and>
      selectedBook (bs_step (handleInputChange v (bs_run evs)) (SearchResolved i q r)) = None \<and>
      suggestions (bs_step (handleInputChange v (bs_run evs)) (SearchRejected i q)) = [] \<and>
      \<not> showPopup (bs_step (handleInputChange v (bs_run evs)) (SearchRejected i q)) \<and>
      selectedBook (bs_step (handleInputChange v (bs_run evs)) (SearchRejected i q)) = None) \<and>
   (trim v = [] \<longrightarrow>
      cs_step c (CsInputChange v) = cs_handleInputChange v c \<and>
      suggestions (cs_handleInputChange v c) = [] \<and>
      \<not> showPopup (cs_handleInputChange v c) \<and>
      cs_calls (cs_handleInputChange v c) = cs_calls c \<and>
      cs_awaiting (cs_handleInputChange v c) = cs_awaiting c \<and>
      cs_selected (cs_handleInputChange v c) = cs_selected c)"
proof (intro conjI impI)
  assume a: "v \<noteq> searchValue (bs_run evs) \<and> trim v = [] \<and>
    (i, q) \<in> set (awaiting_search (bs_run evs))"
  define s' where "s' = handleInputChange v (bs_run evs)"
  from a have clr: "suggestions s' = []" "\<not> showPopup s'" "selectedBook s' = None"
      "currentSearchRef s' = []"
    unfolding s'_def by (simp_all add: blank_change_clears)
  from a bs_inv_bounded [OF bs_inv_run, of evs] have q: "q \<noteq> []"
    by (auto dest: awaiting_boundedD)
  from late_response_discarded(1) [OF clr(4) q, where i = i and r = r]
    late_response_discarded(2) [OF clr(4) q, where i = i] clr(1-3)
  show "suggestions (bs_step (handleInputChange v (bs_run evs)) (SearchResolved i q r)) = []"
    "\<not> showPopup (bs_step (handleInputChange v (bs_run evs)) (SearchResolved i q r))"
    "selectedBook (bs_step (handleInputChange v (bs_run evs)) (SearchResolved i q r)) = None"
    "suggestions (bs_step (handleInputChange v (bs_run evs)) (SearchRejected i q)) = []"
    "\<not> showPopup (bs_step (handleInputChange v (bs_run evs)) (SearchRejected i q))"
    "selectedBook (bs_step (handleInputChange v (bs_run evs)) (SearchRejected i q)) = None"
    unfolding s'_def [symmetric] by (auto simp del: bs_step.simps)
qed (simp_all add: blank_change_clears cs_handleInputChange_def)


theorem C3_blank_input_witness:
  "[] \<noteq> searchValue (bs_run [InputChange ''Al'', Elapse 300, TimerFire]) \<and>
   trim [] = [] \<and>
   (1, ''Al'') \<in> set (awaiting_search (bs_run [InputChange ''Al'', Elapse 300, TimerFire])) \<and>
   suggestions (bs_step (handleInputChange [] (bs_run [InputChange ''Al'', Elapse 300, TimerFire]))
     (SearchResolved 1 ''Al'' (Some [alice]))) = [] \<and>
   \<not> showPopup (bs_step (handleInputChange [] (bs_run [InputChange ''Al'', Elapse 300, TimerFire]))
     (SearchResolved 1 ''Al'' (Some [alice]))) \<and>
   onBookSelect_calls (handleInputChange [] (bs_run [InputChange ''Al'', Elapse 300, TimerFire]))
     = [None, None] \<and>
   suggestions (cs_handleInputChange [] (cs_run [CsInputChange ''Al'',
     CsSearchResolved ''Al'' (Some [allen])])) = [] \<and>
   \<not> showPopup (cs_handleInputChange [] (cs_run [CsInputChange ''Al'',
     CsSearchResolved ''Al'' (Some [allen])]))"
proof -
  define s where "s = bs_run [InputChange ''Al'', Elapse 300, TimerFire]"
  have s: "searchValue s = ''Al''" "awaiting_search s = [(1, ''Al'')]"
      "onBookSelect_calls s = [None]" "selectedBook s = None"
    by (simp_all add: s_def bs_run_Al bs_init_def debounce_effect_def)
  have pre: "[] \<noteq> searchValue s \<and> trim [] = [] \<and> (1, ''Al'') \<in> set (awaiting_search s)"
    by (simp add: s)
  have single: "onBookSelect_calls (handleInputChange [] s) \<noteq> onBookSelect_calls s @ [None, None]"
    by (simp add: handleInputChange_def rerender_def debounce_effect_def s Let_def)
  from C3_blank_input [where v = "[]" and s = s and evs = "[InputChange ''Al'', Elapse 300, TimerFire]"
      and i = 1 and q = "''Al''" and r = "Some [alice]"
      and c = "cs_run [CsInputChange ''Al'', CsSearchResolved ''Al'' (Some [allen])]"]
    pre single
  show ?thesis
    unfolding s_def [symmetric] by (simp add: s del: bs_step.simps)
qed

text \<open>
  C2 as stated fails twice. The customer variant, SearchBar, sets no timer: its
  \<open>handleInputChange\<close> calls \<open>searchCustomers\<close> at once for every value that is not
  blank, so typing "Al" and then "Ali", however close together, issues two requests. In
  the book variant the debounce effect also depends on \<open>onBookSelect\<close>, and Mainwindow
  hands down a new one with every render: while the details of the selected "Dune" are
  being fetched the user types on to "Dun" at 300ms, the lookup for "Dun" goes out at
  600ms, the details arrive and the parent renders again, and at 900ms a second lookup
  for "Dun" goes out although the input has not changed since 300ms.
\<close>

theorem C2_more_than_one_lookup:
  "cs_calls (cs_run [CsInputChange ''Al'', CsInputChange ''Ali'']) = [''Al'', ''Ali''] \<and>
   searchBooks_calls
     (bs_run [InputChange ''Du'', Elapse 300, TimerFire,
        SearchResolved 1 ''Du'' (Some [dune_entry]), SelectSuggestion dune_entry,
        InputChange ''Dun'', Elapse 300, TimerFire, GetBookSettled 42 (Some dune), PropsChange,
        Elapse 300, TimerFire])
     = [(300, ''Du''), (600, ''Dun''), (900, ''Dun'')] \<and>
   last_input_change
     [InputChange ''Du'', Elapse 300, TimerFire,
      SearchResolved 1 ''Du'' (Some [dune_entry]), SelectSuggestion dune_entry,
      InputChange ''Dun'', Elapse 300, TimerFire, GetBookSettled 42 (Some dune), PropsChange,
      Elapse 300, TimerFire] = 300"
proof -
  have w: "trim ''Du'' = ''Du''" "trim ''Dun'' = ''Dun''" "trim ''Dune'' = ''Dune''"
    by (simp_all add: trim_def is_white_def)
  have customer: "cs_calls (cs_run [CsInputChange ''Al'', CsInputChange ''Ali'']) = [''Al'', ''Ali'']"
    by (simp add: cs_run_def cs_init_def cs_handleInputChange_def Let_def)
  have book: "searchBooks_calls
     (bs_run [InputChange ''Du'', Elapse 300, TimerFire,
        SearchResolved 1 ''Du'' (Some [dune_entry]), SelectSuggestion dune_entry,
        InputChange ''Dun'', Elapse 300, TimerFire, GetBookSettled 42 (Some dune), PropsChange,
        Elapse 300, TimerFire])
     = [(300, ''Du''), (600, ''Dun''), (900, ''Dun'')]"
    by (simp add: bs_run_def bs_init_def debounce_effect_def handleInputChange_def rerender_def
        timer_fired_def search_resolved_def isStillCurrent_def suggestions_of_def
        suggestion_rendered_def handleSelectSuggestion_def getBook_resolved_def dune_entry_def
        w Let_def)
  have last: "last_input_change
     [InputChange ''Du'', Elapse 300, TimerFire,
      SearchResolved 1 ''Du'' (Some [dune_entry]), SelectSuggestion dune_entry,
      InputChange ''Dun'', Elapse 300, TimerFire, GetBookSettled 42 (Some dune), PropsChange,
      Elapse 300, TimerFire] = 300"
    by (simp add: last_input_change_def bs_init_def debounce_effect_def handleInputChange_def
        rerender_def timer_fired_def search_resolved_def isStillCurrent_def suggestions_of_def
        suggestion_rendered_def handleSelectSuggestion_def getBook_resolved_def dune_entry_def
        w Let_def)
  from customer book last show ?thesis by blast
qed

text \<open>
  C2, amended. In the book search component, every change of the input to a value that
  is not blank replaces the pending timer by one due 300ms later and dispatches nothing
  itself. A lookup is dispatched only by the callback of that timer, no earlier than
  300ms after the last change of the input, and it asks for the trimmed current input.
  Once it has been dispatched, nothing more is dispatched for as long as the input value
  stays the same and the parent hands down the same \<open>onBookSelect\<close>, so such a quiet
  window sees at most one lookup; a render of the parent with a new \<open>onBookSelect\<close>
  runs the effect again and arms a new timer for the unchanged input. Typing "Al", then
  "Ali" within 100ms, then pausing for 300ms or more issues exactly one request, for
  "Ali". The customer search component does not debounce: each change of its input to a
  value that is not blank dispatches a lookup for that value at once.
\<close>

theorem C2_debounce:
  "(v \<noteq> searchValue s \<and> trim v \<noteq> [] \<longrightarrow>
      bs_step s (InputChange v) = handleInputChange v s \<and>
      searchTimeoutRef (handleInputChange v s) =
        Some (clock s + 300, requestIdRef s + 1, trim v) \<and>
      searchBooks_calls (handleInputChange v s) = searchBooks_calls s) \<and>
   (searchBooks_calls (bs_run (evs @ [e])) \<noteq> searchBooks_calls (bs_run evs) \<longrightarrow>
      e = TimerFire \<and>
      searchBooks_calls (bs_run (evs @ [e])) =
        searchBooks_calls (bs_run evs) @ [(clock (bs_run evs), trim (searchValue (bs_run evs)))] \<and>
      last_input_change evs + 300 \<le> clock (bs_run evs)) \<and>
   (searchBooks_calls (bs_run (evs @ [TimerFire])) \<noteq> searchBooks_calls (bs_run evs) \<and>
    calm (bs_run (evs @ [TimerFire])) post \<longrightarrow>
      searchBooks_calls (bs_run (evs @ TimerFire # post)) =
        searchBooks_calls (bs_run (evs @ [TimerFire]))) \<and>
   (trim (searchValue s) \<noteq> [] \<longrightarrow>
      searchTimeoutRef (bs_step s PropsChange) =
        Some (clock s + 300, requestIdRef s + 1, trim (searchValue s)) \<and>
      searchBooks_calls (bs_step s PropsChange) = searchBooks_calls s) \<and>
   (d \<le> 100 \<and> 300 \<le> d' \<longrightarrow>
      searchBooks_calls
        (bs_run [InputChange ''Al'', Elapse d, TimerFire, InputChange ''Ali'', Elapse d',
                 TimerFire]) = [(d + d', ''Ali'')]) \<and>
   (trim v \<noteq> [] \<longrightarrow>
      cs_step c (CsInputChange v) = cs_handleInputChange v c \<and>
      cs_calls (cs_handleInputChange v c) = cs_calls c @ [v])"
proof (intro conjI impI)
  assume "v \<noteq> searchValue s \<and> trim v \<noteq> []"
  then show "searchTimeoutRef (handleInputChange v s) =
      Some (clock s + 300, requestIdRef s + 1, trim v)"
    by (auto simp: handleInputChange_def rerender_def debounce_effect_def Let_def
        split: option.splits)
next
  assume a: "searchBooks_calls (bs_run (evs @ [e])) \<noteq> searchBooks_calls (bs_run evs)"
  define s0 where "s0 = bs_run evs"
  from a have "searchBooks_calls (bs_step s0 e) \<noteq> searchBooks_calls s0"
    by (simp add: s0_def bs_run_snoc)
  from dispatch_only_by_timer [OF this] obtain due i q
    where e: "e = TimerFire" and tm: "searchTimeoutRef s0 = Some (due, i, q)"
      and due: "due \<le> clock s0"
      and calls: "searchBooks_calls (bs_step s0 e) = searchBooks_calls s0 @ [(clock s0, q)]"
    by blast
  have "timer_ok s0"
    using bs_inv_run [of evs] by (simp add: s0_def bs_inv_def)
  with tm have q: "q = trim (searchValue s0)"
    unfolding timer_ok_def by blast
  have "bs_timing s0 (last_input_change evs)"
    by (simp add: s0_def bs_timing_run)
  with tm have "last_input_change evs + 300 \<le> due"
    unfolding bs_timing_def by blast
  with due have late: "last_input_change evs + 300 \<le> clock s0" by simp
  show "e = TimerFire" by (fact e)
  show "searchBooks_calls (bs_run (evs @ [e])) =
      searchBooks_calls (bs_run evs) @ [(clock (bs_run evs), trim (searchValue (bs_run evs)))]"
    using calls q by (simp add: s0_def bs_run_snoc del: bs_step.simps)
  show "last_input_change evs + 300 \<le> clock (bs_run evs)"
    using late by (simp add: s0_def)
next
  assume a: "searchBooks_calls (bs_run (evs @ [TimerFire])) \<noteq> searchBooks_calls (bs_run evs) \<and>
    calm (bs_run (evs @ [TimerFire])) post"
  define s1 where "s1 = bs_step (bs_run evs) TimerFire"
  from a have "searchBooks_calls (bs_step (bs_run evs) TimerFire) \<noteq> searchBooks_calls (bs_run evs)"
    by (simp add: bs_run_snoc del: bs_step.simps)
  from dispatch_only_by_timer [OF this] have none: "searchTimeoutRef s1 = None"
    unfolding s1_def by blast
  from a have "calm s1 post" by (simp add: s1_def bs_run_snoc del: bs_step.simps)
  from calm_steps [OF none this]
  have "searchBooks_calls (foldl bs_step s1 post) = searchBooks_calls s1" by simp
  moreover have "bs_run (evs @ TimerFire # post) = foldl bs_step s1 post"
    by (simp add: bs_run_def s1_def)
  ultimately show "searchBooks_calls (bs_run (evs @ TimerFire # post)) =
      searchBooks_calls (bs_run (evs @ [TimerFire]))"
    by (simp add: bs_run_snoc s1_def del: bs_step.simps)
next
  assume "trim (searchValue s) \<noteq> []"
  then show "searchTimeoutRef (bs_step s PropsChange) =
      Some (clock s + 300, requestIdRef s + 1, trim (searchValue s))"
    by (simp add: debounce_effect_def Let_def)
next
  assume "d \<le> 100 \<and> 300 \<le> d'"
  then show "searchBooks_calls
      (bs_run [InputChange ''Al'', Elapse d, TimerFire, InputChange ''Ali'', Elapse d', TimerFire])
      = [(d + d', ''Ali'')]"
    by (simp add: typing_Al_Ali)
qed (simp_all add: cs_handleInputChange_def)

theorem C2_debounce_witness:
  "searchBooks_calls (bs_run ([InputChange ''Al'', Elapse 50, InputChange ''Ali'', Elapse 300] @ [TimerFire]))
     \<noteq> searchBooks_calls (bs_run [InputChange ''Al'', Elapse 50, InputChange ''Ali'', Elapse 300]) \<and>
   searchBooks_calls (bs_run ([InputChange ''Al'', Elapse 50, InputChange ''Ali'', Elapse 300] @ [TimerFire]))
     = [(350, ''Ali'')] \<and>
   last_input_change [InputChange ''Al'', Elapse 50, InputChange ''Ali'', Elapse 300] = 50 \<and>
   calm (bs_run ([InputChange ''Al'', Elapse 50, InputChange ''Ali'', Elapse 300] @ [TimerFire]))
     [Elapse 500, TimerFire, GetBookSettled 42 (Some dune), InputChange ''Ali''] \<and>
   searchBooks_calls (bs_run ([InputChange ''Al'', Elapse 50, InputChange ''Ali'', Elapse 300] @
     TimerFire # [Elapse 500, TimerFire, GetBookSettled 42 (Some dune), InputChange ''Ali'']))
     = [(350, ''Ali'')] \<and>
   searchBooks_calls (bs_run [InputChange ''Al'', Elapse 100, TimerFire, InputChange ''Ali'',
     Elapse 300, TimerFire]) = [(400, ''Ali'')] \<and>
   cs_calls (cs_handleInputChange ''Al'' cs_init) = [''Al''] \<and>
   ''Al'' \<noteq> searchValue bs_init \<and>
   searchTimeoutRef (handleInputChange ''Al'' bs_init) = Some (300, 1, ''Al'') \<and>
   trim (searchValue (bs_init\<lparr> searchValue := ''Al'' \<rparr>)) \<noteq> [] \<and>
   searchTimeoutRef (bs_step (bs_init\<lparr> searchValue := ''Al'' \<rparr>) PropsChange) = Some (300, 1, ''Al'')"
proof -
  define E where "E = [InputChange ''Al'', Elapse 50, InputChange ''Ali'', Elapse 300]"
  define P where "P = [Elapse 500, TimerFire, GetBookSettled 42 (Some dune), InputChange ''Ali'']"
  have run: "bs_run E = bs_init\<lparr> searchValue := ''Ali'', requestIdRef := 2, clock := 350,
      searchTimeoutRef := Some (350, 2, ''Ali'') \<rparr>"
    by (simp add: E_def bs_run_def bs_init_def debounce_effect_def handleInputChange_def
        rerender_def Let_def)
  have calls0: "searchBooks_calls (bs_run E) = []"
    by (simp add: run bs_init_def debounce_effect_def)
  have fired: "searchBooks_calls (bs_run (E @ [TimerFire])) = [(350, ''Ali'')]"
    by (simp add: bs_run_snoc run timer_fired_def bs_init_def debounce_effect_def)
  have differ: "searchBooks_calls (bs_run (E @ [TimerFire])) \<noteq> searchBooks_calls (bs_run E)"
    by (simp add: fired calls0)
  have last: "last_input_change E = 50"
    by (simp add: E_def last_input_change_def bs_init_def debounce_effect_def
        handleInputChange_def rerender_def Let_def)
  have q: "calm (bs_run (E @ [TimerFire])) P"
    by (simp add: P_def bs_run_snoc run timer_fired_def bs_init_def debounce_effect_def)
  have blank: "trim ''Al'' \<noteq> []" by simp
  have fresh: "''Al'' \<noteq> searchValue bs_init" "clock bs_init = 0" "requestIdRef bs_init = 0"
    by (simp_all add: bs_init_def debounce_effect_def)
  have props: "trim (searchValue (bs_init\<lparr> searchValue := ''Al'' \<rparr>)) \<noteq> []"
    by simp
  have "searchBooks_calls (bs_run (E @ TimerFire # P)) =
        searchBooks_calls (bs_run (E @ [TimerFire]))"
      "searchBooks_calls (bs_run [InputChange ''Al'', Elapse 100, TimerFire, InputChange ''Ali'',
        Elapse 300, TimerFire]) = [(400, ''Ali'')]"
      "cs_calls (cs_handleInputChange ''Al'' cs_init) = cs_calls cs_init @ [''Al'']"
      "searchTimeoutRef (handleInputChange ''Al'' bs_init) = Some (300, 1, ''Al'')"
    using C2_debounce [where evs = E and e = TimerFire and post = P
      and d = 100 and d' = 300 and v = "''Al''" and c = cs_init and s = bs_init]
      differ q blank fresh
    by simp_all
  moreover have "searchTimeoutRef (bs_step (bs_init\<lparr> searchValue := ''Al'' \<rparr>) PropsChange) =
      Some (300, 1, ''Al'')"
    using C2_debounce [where s = "bs_init\<lparr> searchValue := ''Al'' \<rparr>"] props fresh(2,3)
    by (simp del: bs_step.simps)
  ultimately show ?thesis
    using differ fired last q fresh(1) props
    unfolding E_def [symmetric] P_def [symmetric] by (simp add: cs_init_def)
qed

text \<open>
  C1 as stated fails in its last clause. Suggestions that have been applied stay visible
  while a newer input waits out its debounce delay: after the lookup for "Al" has been
  applied and the input has changed to "Ali", the popup is open, is not loading and
  lists the suggestions that answered "Al", and no lookup for "Ali" has been dispatched.
\<close>

theorem C1_stale_suggestions_visible:
  "showPopup (bs_run [InputChange ''Al'', Elapse 300, TimerFire,
     SearchResolved 1 ''Al'' (Some [alice]), InputChange ''Ali'']) \<and>
   \<not> isLoading (bs_run [InputChange ''Al'', Elapse 300, TimerFire,
     SearchResolved 1 ''Al'' (Some [alice]), InputChange ''Ali'']) \<and>
   suggestions (bs_run [InputChange ''Al'', Elapse 300, TimerFire,
     SearchResolved 1 ''Al'' (Some [alice]), InputChange ''Ali'']) = [alice] \<and>
   searchValue (bs_run [InputChange ''Al'', Elapse 300, TimerFire,
     SearchResolved 1 ''Al'' (Some [alice]), InputChange ''Ali'']) = ''Ali'' \<and>
   searchBooks_calls (bs_run [InputChange ''Al'', Elapse 300, TimerFire,
     SearchResolved 1 ''Al'' (Some [alice]), InputChange ''Ali'']) = [(300, ''Al'')]"
proof -
  have "bs_run [InputChange ''Al'', Elapse 300, TimerFire,
      SearchResolved 1 ''Al'' (Some [alice]), InputChange ''Ali''] =
    bs_step (bs_step (bs_run [InputChange ''Al'', Elapse 300, TimerFire])
      (SearchResolved 1 ''Al'' (Some [alice]))) (InputChange ''Ali'')"
    by (simp add: bs_run_def)
  then show ?thesis
    by (simp add: bs_run_Al search_resolved_def isStillCurrent_def suggestions_of_def
        handleInputChange_def rerender_def debounce_effect_def bs_init_def Let_def)
qed

text \<open>
  SearchBar, the customer variant, tags nothing and applies every response: a response
  for "Al" that arrives after the one for "Ali" replaces the suggestions.
\<close>

lemma customer_applies_stale_response:
  "suggestions (cs_run [CsInputChange ''Al'', CsInputChange ''Ali'',
     CsSearchResolved ''Ali'' (Some []), CsSearchResolved ''Al'' (Some [allen])]) = [allen] \<and>
   searchValue (cs_run [CsInputChange ''Al'', CsInputChange ''Ali'',
     CsSearchResolved ''Ali'' (Some []), CsSearchResolved ''Al'' (Some [allen])]) = ''Ali''"
  by (simp add: cs_run_def cs_init_def cs_handleInputChange_def cs_search_resolved_def
      suggestions_of_def Let_def)

text \<open>
  C1, amended. In the book search component, after any sequence of events, when an
  awaited lookup completes, with a response or with a failure, its result is applied
  only if its request id equals the latest issued id (\<open>requestIdRef\<close>) and
  \<open>currentSearchRef\<close> equals the query it answers; in that case the query is the trimmed
  current input, so every result that is applied answers the most recent input. Any
  other completion is dropped: apart from the lookup no longer being awaited, the state
  is unchanged.
\<close>

theorem C1_stale_response_guard:
  "(i, q) \<in> set (awaiting_search (bs_run evs)) \<longrightarrow>
     i \<le> requestIdRef (bs_run evs) \<and>
     (isStillCurrent i q (bs_run evs) \<longleftrightarrow>
        currentSearchRef (bs_run evs) = q \<and> i = requestIdRef (bs_run evs)) \<and>
     (isStillCurrent i q (bs_run evs) \<longrightarrow>
        q = trim (searchValue (bs_run evs)) \<and>
        bs_step (bs_run evs) (SearchResolved i q r) =
          (bs_run evs)\<lparr> awaiting_search := remove1 (i, q) (awaiting_search (bs_run evs)),
             suggestions := suggestions_of r, showPopup := True, isLoading := False \<rparr> \<and>
        bs_step (bs_run evs) (SearchRejected i q) =
          (bs_run evs)\<lparr> awaiting_search := remove1 (i, q) (awaiting_search (bs_run evs)),
             suggestions := [], isLoading := False \<rparr>) \<and>
     (\<not> isStillCurrent i q (bs_run evs) \<longrightarrow>
        bs_step (bs_run evs) (SearchResolved i q r) =
          (bs_run evs)\<lparr> awaiting_search := remove1 (i, q) (awaiting_search (bs_run evs)) \<rparr> \<and>
        bs_step (bs_run evs) (SearchRejected i q) =
          (bs_run evs)\<lparr> awaiting_search := remove1 (i, q) (awaiting_search (bs_run evs)) \<rparr>)"
proof (intro impI)
  assume aw: "(i, q) \<in> set (awaiting_search (bs_run evs))"
  define s where "s = bs_run evs"
  have inv: "bs_inv s" by (simp add: s_def bs_inv_run)
  then have a: "awaiting_ok s" and b: "blank_ok s"
    by (simp_all add: bs_inv_def)
  from aw have aw': "(i, q) \<in> set (awaiting_search s)" by (simp add: s_def)
  from awaiting_okD [OF a aw'] have bound: "i \<le> requestIdRef s" and q: "q \<noteq> []"
    by simp_all
  have current: "q = trim (searchValue s)" if "isStillCurrent i q s"
  proof -
    from that have cur: "currentSearchRef s = q" and latest: "i = requestIdRef s"
      by (simp_all add: isStillCurrent_def)
    from cur q b have "trim (searchValue s) \<noteq> []"
      unfolding blank_ok_def by auto
    with a aw' latest show ?thesis
      unfolding awaiting_ok_def by blast
  qed
  have frame: "isStillCurrent i q (s\<lparr> awaiting_search := l \<rparr>) = isStillCurrent i q s" for l
    by (simp add: isStillCurrent_def)
  have res: "bs_step s (SearchResolved i q r) =
      search_resolved i q r (s\<lparr> awaiting_search := remove1 (i, q) (awaiting_search s) \<rparr>)"
    and rej: "bs_step s (SearchRejected i q) =
      search_rejected i q (s\<lparr> awaiting_search := remove1 (i, q) (awaiting_search s) \<rparr>)"
    using aw' by simp_all
  have unfolded: "isStillCurrent i q s \<longleftrightarrow> currentSearchRef s = q \<and> i = requestIdRef s"
    by (simp add: isStillCurrent_def)
  have applied: "q = trim (searchValue s) \<and>
        bs_step s (SearchResolved i q r) =
          s\<lparr> awaiting_search := remove1 (i, q) (awaiting_search s),
             suggestions := suggestions_of r, showPopup := True, isLoading := False \<rparr> \<and>
        bs_step s (SearchRejected i q) =
          s\<lparr> awaiting_search := remove1 (i, q) (awaiting_search s),
             suggestions := [], isLoading := False \<rparr>"
    if "isStillCurrent i q s"
  proof -
    have "bs_step s (SearchResolved i q r) =
          s\<lparr> awaiting_search := remove1 (i, q) (awaiting_search s),
             suggestions := suggestions_of r, showPopup := True, isLoading := False \<rparr> \<and>
        bs_step s (SearchRejected i q) =
          s\<lparr> awaiting_search := remove1 (i, q) (awaiting_search s),
             suggestions := [], isLoading := False \<rparr>"
      using that
      by (simp add: res rej search_resolved_def search_rejected_def frame del: bs_step.simps)
    with current [OF that] show ?thesis by blast
  qed
  have discarded: "bs_step s (SearchResolved i q r) =
          s\<lparr> awaiting_search := remove1 (i, q) (awaiting_search s) \<rparr> \<and>
        bs_step s (SearchRejected i q) =
          s\<lparr> awaiting_search := remove1 (i, q) (awaiting_search s) \<rparr>"
    if "\<not> isStillCurrent i q s"
    using that
    by (simp add: res rej search_resolved_def search_rejected_def frame del: bs_step.simps)
  have "i \<le> requestIdRef s \<and>
     (isStillCurrent i q s \<longleftrightarrow> currentSearchRef s = q \<and> i = requestIdRef s) \<and>
     (isStillCurrent i q s \<longrightarrow>
        q = trim (searchValue s) \<and>
        bs_step s (SearchResolved i q r) =
          s\<lparr> awaiting_search := remove1 (i, q) (awaiting_search s),
             suggestions := suggestions_of r, showPopup := True, isLoading := False \<rparr> \<and>
        bs_step s (SearchRejected i q) =
          s\<lparr> awaiting_search := remove1 (i, q) (awaiting_search s),
             suggestions := [], isLoading := False \<rparr>) \<and>
     (\<not> isStillCurrent i q s \<longrightarrow>
        bs_step s (SearchResolved i q r) =
          s\<lparr> awaiting_search := remove1 (i, q) (awaiting_search s) \<rparr> \<and>
        bs_step s (SearchRejected i q) =
          s\<lparr> awaiting_search := remove1 (i, q) (awaiting_search s) \<rparr>)"
    using bound unfolded applied discarded by blast
  then show "i \<le> requestIdRef (bs_run evs) \<and>
     (isStillCurrent i q (bs_run evs) \<longleftrightarrow>
        currentSearchRef (bs_run evs) = q \<and> i = requestIdRef (bs_run evs)) \<and>
     (isStillCurrent i q (bs_run evs) \<longrightarrow>
        q = trim (searchValue (bs_run evs)) \<and>
        bs_step (bs_run evs) (SearchResolved i q r) =
          (bs_run evs)\<lparr> awaiting_search := remove1 (i, q) (awaiting_search (bs_run evs)),
             suggestions := suggestions_of r, showPopup := True, isLoading := False \<rparr> \<and>
        bs_step (bs_run evs) (SearchRejected i q) =
          (bs_run evs)\<lparr> awaiting_search := remove1 (i, q) (awaiting_search (bs_run evs)),
             suggestions := [], isLoading := False \<rparr>) \<and>
     (\<not> isStillCurrent i q (bs_run evs) \<longrightarrow>
        bs_step (bs_run evs) (SearchResolved i q r) =
          (bs_run evs)\<lparr> awaiting_search := remove1 (i, q) (awaiting_search (bs_run evs)) \<rparr> \<and>
        bs_step (bs_run evs) (SearchRejected i q) =
          (bs_run evs)\<lparr> awaiting_search := remove1 (i, q) (awaiting_search (bs_run evs)) \<rparr>)"
    unfolding s_def .
qed


theorem C1_stale_response_guard_witness:
  "(1, ''Al'') \<in> set (awaiting_search (bs_run [InputChange ''Al'', Elapse 300, TimerFire])) \<and>
   isStillCurrent 1 ''Al'' (bs_run [InputChange ''Al'', Elapse 300, TimerFire]) \<and>
   ''Al'' = trim (searchValue (bs_run [InputChange ''Al'', Elapse 300, TimerFire])) \<and>
   suggestions (bs_step (bs_run [InputChange ''Al'', Elapse 300, TimerFire])
     (SearchResolved 1 ''Al'' (Some [alice]))) = [alice] \<and>
   showPopup (bs_step (bs_run [InputChange ''Al'', Elapse 300, TimerFire])
     (SearchResolved 1 ''Al'' (Some [alice]))) \<and>
   (1, ''Al'') \<in> set (awaiting_search
     (bs_run [InputChange ''Al'', Elapse 300, TimerFire, InputChange ''Ali''])) \<and>
   \<not> isStillCurrent 1 ''Al'' (bs_run [InputChange ''Al'', Elapse 300, TimerFire, InputChange ''Ali'']) \<and>
   suggestions (bs_step (bs_run [InputChange ''Al'', Elapse 300, TimerFire, InputChange ''Ali''])
     (SearchResolved 1 ''Al'' (Some [alice]))) = [] \<and>
   \<not> showPopup (bs_step (bs_run [InputChange ''Al'', Elapse 300, TimerFire, InputChange ''Ali''])
     (SearchResolved 1 ''Al'' (Some [alice])))"
proof -
  define s1 where "s1 = bs_run [InputChange ''Al'', Elapse 300, TimerFire]"
  define s2 where "s2 = bs_run [InputChange ''Al'', Elapse 300, TimerFire, InputChange ''Ali'']"
  have s1: "s1 = bs_init\<lparr> searchValue := ''Al'', isLoading := True, currentSearchRef := ''Al'',
              requestIdRef := 1, clock := 300, searchBooks_calls := [(300, ''Al'')],
              awaiting_search := [(1, ''Al'')] \<rparr>"
    by (simp add: s1_def bs_run_Al)
  have "s2 = bs_step s1 (InputChange ''Ali'')"
    by (simp add: s1_def s2_def bs_run_def)
  then have s2: "awaiting_search s2 = [(1, ''Al'')]" "requestIdRef s2 = 2" "suggestions s2 = []"
      "\<not> showPopup s2"
    by (simp_all add: s1 handleInputChange_def rerender_def debounce_effect_def bs_init_def Let_def)
  have pre1: "(1, ''Al'') \<in> set (awaiting_search s1)" "isStillCurrent 1 ''Al'' s1"
    by (simp_all add: s1 isStillCurrent_def bs_init_def debounce_effect_def)
  have pre2: "(1, ''Al'') \<in> set (awaiting_search s2)" "\<not> isStillCurrent 1 ''Al'' s2"
    by (simp_all add: s2 isStillCurrent_def)
  from C1_stale_response_guard [where evs = "[InputChange ''Al'', Elapse 300, TimerFire]"
      and i = 1 and q = "''Al''" and r = "Some [alice]"] pre1
  have a: "''Al'' = trim (searchValue s1)"
      "bs_step s1 (SearchResolved 1 ''Al'' (Some [alice])) =
         s1\<lparr> awaiting_search := remove1 (1, ''Al'') (awaiting_search s1),
             suggestions := suggestions_of (Some [alice]), showPopup := True, isLoading := False \<rparr>"
    unfolding s1_def [symmetric] by blast+
  from C1_stale_response_guard [where evs = "[InputChange ''Al'', Elapse 300, TimerFire, InputChange ''Ali'']"
      and i = 1 and q = "''Al''" and r = "Some [alice]"] pre2
  have b: "bs_step s2 (SearchResolved 1 ''Al'' (Some [alice])) =
         s2\<lparr> awaiting_search := remove1 (1, ''Al'') (awaiting_search s2) \<rparr>"
    unfolding s2_def [symmetric] by blast
  have applied: "suggestions (bs_step s1 (SearchResolved 1 ''Al'' (Some [alice]))) = [alice]"
      "showPopup (bs_step s1 (SearchResolved 1 ''Al'' (Some [alice])))"
    unfolding a(2) by (simp_all add: suggestions_of_def)
  have discarded: "suggestions (bs_step s2 (SearchResolved 1 ''Al'' (Some [alice]))) = []"
      "\<not> showPopup (bs_step s2 (SearchResolved 1 ''Al'' (Some [alice])))"
    unfolding b by (simp_all add: s2)
  show ?thesis
    unfolding s1_def [symmetric] s2_def [symmetric]
    using pre1 pre2 a(1) applied discarded by blast
qed

end
